theory Spec2Isabelle
  imports Main "HOL-Library.Word" "HOL-Library.Multiset"
begin

section \<open>Machine integers and bytes\<close>

text \<open>
  Go's \<open>int64\<close> is modelled as \<open>int\<close> with the two's complement wrap-around of
  every addition and subtraction written out by \<open>wrap64\<close>. A value is a proper
  \<open>int64\<close> when \<open>is_int64\<close> holds of it.
\<close>

type_synonym int64 = int

type_synonym byte = "8 word"

definition wrap64 :: "int \<Rightarrow> int64" where
  "wrap64 x = (x + 2 ^ 63) mod 2 ^ 64 - 2 ^ 63"

definition is_int64 :: "int \<Rightarrow> bool" where
  "is_int64 x = (- (2 ^ 63) \<le> x \<and> x < 2 ^ 63)"

definition add64 :: "int64 \<Rightarrow> int64 \<Rightarrow> int64" where
  "add64 a b = wrap64 (a + b)"

definition sub64 :: "int64 \<Rightarrow> int64 \<Rightarrow> int64" where
  "sub64 a b = wrap64 (a - b)"

text \<open>Go's integer division truncates towards zero (the divisor here is the positive chunk size).\<close>

definition quo64 :: "int64 \<Rightarrow> int64 \<Rightarrow> int64" where
  "quo64 a b = (if 0 \<le> a then a div b else - ((- a) div b))"

section \<open>Errors\<close>

text \<open>
  Every error value the package returns. \<open>EOF\<close> and \<open>ErrUnexpectedEOF\<close> are those of
  package \<open>io\<close>; \<open>errParse\<close>, \<open>ErrValidationFailed\<close> are the package's own variables;
  \<open>InvalidArgs\<close> and \<open>InvalidMethod\<close> are the two errors of \<open>New\<close>; \<open>HttpRequestError e\<close>
  is \<open>fmt.Errorf("http request error %w", e)\<close>; \<open>UnexpectStatusInit\<close> is the error of
  \<open>init\<close> on a status other than 206 and \<open>UnexpectStatusNoRange\<close> that of \<open>ReadAt\<close>, which
  wraps \<open>ErrNoRange\<close> (both carry the status line); \<open>DifferentRange\<close> carries the
  requested and the received bounds; \<open>ContentLengthMismatch\<close> is
  \<open>errors.New("content-length mismatch in http response")\<close>; \<open>DownloadSizeNotEqual\<close> is
  the error of \<open>readChunk\<close> (count, expected length, offset). \<open>Other\<close> stands for the errors
  that come from outside the package: the transport's, a body read's,
  \<open>http.NewRequestWithContext\<close>'s.
\<close>

datatype error =
    EOF
  | ErrUnexpectedEOF
  | errParse
  | ErrValidationFailed
  | InvalidArgs
  | InvalidMethod
  | HttpRequestError error
  | UnexpectStatusInit string
  | UnexpectStatusNoRange string
  | DifferentRange int64 int64 int64 int64
  | ContentLengthMismatch
  | DownloadSizeNotEqual int nat int64
  | Other string

section \<open>Strings: \<open>strings.Split\<close>, \<open>strconv.ParseInt\<close>, \<open>%d\<close>\<close>

text \<open>\<open>strings.Split(s, sep)\<close> for a one-character separator: the pieces between the separators.\<close>

fun Split :: "string \<Rightarrow> char \<Rightarrow> string list" where
  "Split [] sep = [[]]"
| "Split (c # cs) sep =
     (if c = sep then [] # Split cs sep
      else (case Split cs sep of [] \<Rightarrow> [[c]] | w # ws \<Rightarrow> (c # w) # ws))"

definition isDigit :: "char \<Rightarrow> bool" where
  "isDigit c = (48 \<le> (of_char c :: nat) \<and> (of_char c :: nat) \<le> 57)"

definition digitsValue :: "string \<Rightarrow> int" where
  "digitsValue ds = foldl (\<lambda>acc c. acc * 10 + (int (of_char c) - 48)) 0 ds"

text \<open>
  \<open>strconv.ParseInt(s, 10, 64)\<close>: an optional sign, then one or more decimal digits; a
  syntax error or a value out of the \<open>int64\<close> range is \<open>None\<close> (the callers only test
  \<open>err != nil\<close>).
\<close>

definition ParseInt :: "string \<Rightarrow> int64 option" where
  "ParseInt s =
     (case s of
        [] \<Rightarrow> None
      | c # cs \<Rightarrow>
          (let neg = (c = CHR ''-'');
               ds = (if c = CHR ''+'' then cs else if c = CHR ''-'' then cs else s)
           in if ds = [] then None
              else if list_all isDigit ds then
                (let un = digitsValue ds
                 in if neg then (if 2 ^ 63 < un then None else Some (- un))
                    else (if 2 ^ 63 \<le> un then None else Some un))
              else None))"

section \<open>Content-Range\<close>

text \<open>\<open>parseContentRange\<close> of down.go (lines 350-385); \<open>Inl errParse\<close> is the error return.\<close>

definition parseContentRange :: "string \<Rightarrow> error + (int64 \<times> int64 \<times> int64)" where
  "parseContentRange str =
     (case Split str (CHR '' '') of
        [kw, rest] \<Rightarrow>
          (if kw = ''bytes'' then
             (case Split rest (CHR ''/'') of
                [rangePart, lengthPart] \<Rightarrow>
                  (case (if lengthPart = ''*'' then Some (- 1) else ParseInt lengthPart) of
                     None \<Rightarrow> Inl errParse
                   | Some lengthv \<Rightarrow>
                       (case (if rangePart = ''*'' then Some (- 1, - 1)
                              else (case Split rangePart (CHR ''-'') of
                                      [firstPart, lastPart] \<Rightarrow>
                                        (case ParseInt firstPart of
                                           None \<Rightarrow> None
                                         | Some firstv \<Rightarrow>
                                             (case ParseInt lastPart of
                                                None \<Rightarrow> None
                                              | Some lastv \<Rightarrow> Some (firstv, lastv)))
                                    | _ \<Rightarrow> None)) of
                          None \<Rightarrow> Inl errParse
                        | Some (firstv, lastv) \<Rightarrow>
                            (if firstv = - 1 \<and> lastv = - 1 \<and> lengthv = - 1 then Inl errParse
                             else Inr (firstv, lastv, lengthv))))
              | _ \<Rightarrow> Inl errParse)
           else Inl errParse)
      | _ \<Rightarrow> Inl errParse)"

text \<open>The verb \<open>%d\<close> of \<open>fmt.Sprintf\<close> on an \<open>int64\<close>: decimal digits, \<open>-\<close> before a negative value.\<close>

fun natDigits :: "nat \<Rightarrow> string" where
  "natDigits k =
     (if k < 10 then [''0123456789'' ! k]
      else natDigits (k div 10) @ [''0123456789'' ! (k mod 10)])"

declare natDigits.simps [simp del]

definition fmtInt :: "int64 \<Rightarrow> string" where
  "fmtInt i = (if i < 0 then CHR ''-'' # natDigits (nat (- i)) else natDigits (nat i))"

text \<open>\<open>HttpHeaderRangeFormat = "bytes=%d-%d"\<close> of constant.go, applied to its two arguments.\<close>

definition HttpHeaderRangeFormat :: "int64 \<Rightarrow> int64 \<Rightarrow> string" where
  "HttpHeaderRangeFormat reqFirst reqLast = ''bytes='' @ fmtInt reqFirst @ ''-'' @ fmtInt reqLast"

section \<open>Requests, responses and the transport\<close>

text \<open>
  A header is an association list; \<open>Header_Get\<close> is \<open>http.Header.Get\<close> (the empty string
  when the key is absent) and \<open>Header_Set\<close> is \<open>http.Header.Set\<close>. Keys are compared as
  the source writes them.
\<close>

type_synonym header = "(string \<times> string) list"

definition Header_Get :: "header \<Rightarrow> string \<Rightarrow> string" where
  "Header_Get h k = (case map_of h k of None \<Rightarrow> [] | Some v \<Rightarrow> v)"

definition Header_Set :: "header \<Rightarrow> string \<Rightarrow> string \<Rightarrow> header" where
  "Header_Set h k v = (k, v) # filter (\<lambda>kv. fst kv \<noteq> k) h"

definition cloneHeader :: "header \<Rightarrow> header" where
  "cloneHeader h = map (\<lambda>kv. (fst kv, snd kv)) h"

record request =
  Method :: string
  URL :: string
  ReqHeader :: header
  ReqContentLength :: int64
  ReqBody :: "byte list option"

text \<open>
  A response body is the bytes it delivers and the error that ends it: \<open>EOF\<close> for a body
  that ends cleanly, any other error for a read that fails.
\<close>

record response =
  Status :: string
  StatusCode :: int
  Header :: header
  ContentLength :: int64
  Body :: "byte list \<times> error"

text \<open>
  \<open>Requester\<close> of client.go: \<open>Do(r) (*http.Response, error)\<close>. The transport is a function
  of the request: it answers the same request the same way each time.
\<close>

type_synonym Requester = "request \<Rightarrow> error + response"

section \<open>Metadata\<close>

record Meta =
  start :: int64
  endv :: int64
  sizev :: int64
  lastModified :: string
  etag :: string
  contentType :: string

text \<open>\<open>getMeta\<close> of down.go (lines 406-428).\<close>

definition getMeta :: "response \<Rightarrow> error + Meta" where
  "getMeta resp =
     (let meta = \<lparr> start = - 1, endv = - 1, sizev = 0,
                    lastModified = Header_Get (Header resp) ''Last-Modified'',
                    etag = Header_Get (Header resp) ''ETag'',
                    contentType = Header_Get (Header resp) ''Content-Type'' \<rparr>
      in if StatusCode resp = 200 then Inr (meta\<lparr> sizev := ContentLength resp \<rparr>)
         else if StatusCode resp = 206 then
           (let contentRange = Header_Get (Header resp) ''Content-Range''
            in if contentRange = [] then Inr meta
               else (case parseContentRange contentRange of
                       Inl err \<Rightarrow> Inl err
                     | Inr (s, e, n) \<Rightarrow> Inr (meta\<lparr> start := s, endv := e, sizev := n \<rparr>)))
         else Inr meta)"

section \<open>The range reader\<close>

record HTTPReaderAt =
  client :: Requester
  req :: request
  meta :: Meta

definition cloneRequest :: "HTTPReaderAt \<Rightarrow> request" where
  "cloneRequest ra =
     (req ra)\<lparr> ReqBody := None, ReqContentLength := 0,
               ReqHeader := cloneHeader (ReqHeader (req ra)) \<rparr>"

text \<open>The request \<open>ReadAt\<close> and \<open>init\<close> send: the clone of the prototype with its Range header set.\<close>

definition rangeRequest :: "HTTPReaderAt \<Rightarrow> string \<Rightarrow> request" where
  "rangeRequest ra reqRange =
     (cloneRequest ra)\<lparr> ReqHeader := Header_Set (ReqHeader (cloneRequest ra)) ''Range'' reqRange \<rparr>"

text \<open>\<open>init\<close> of httpreadat.go (lines 77-96): the one-byte probe. It returns the reader with its metadata set.\<close>

definition init :: "HTTPReaderAt \<Rightarrow> error + HTTPReaderAt" where
  "init ra =
     (case client ra (rangeRequest ra ''bytes=0-0'') of
        Inl err \<Rightarrow> Inl (HttpRequestError err)
      | Inr resp \<Rightarrow>
          (if StatusCode resp \<noteq> 206 then Inl (UnexpectStatusInit (Status resp))
           else (case getMeta resp of
                   Inl err \<Rightarrow> Inl err
                 | Inr m \<Rightarrow> Inr (ra\<lparr> meta := m \<rparr>))))"

definition zeroMeta :: Meta where
  "zeroMeta = \<lparr> start = 0, endv = 0, sizev = 0, lastModified = [], etag = [], contentType = [] \<rparr>"

text \<open>\<open>New\<close> of httpreadat.go (lines 43-60); \<open>None\<close> is a nil argument.\<close>

definition New :: "Requester option \<Rightarrow> request option \<Rightarrow> error + HTTPReaderAt" where
  "New clt rq =
     (case clt of
        None \<Rightarrow> Inl InvalidArgs
      | Some c \<Rightarrow>
          (case rq of
             None \<Rightarrow> Inl InvalidArgs
           | Some r \<Rightarrow>
               (if Method r \<noteq> ''GET'' then Inl InvalidMethod
                else init \<lparr> client = c, req = r, meta = zeroMeta \<rparr>)))"

definition Size :: "HTTPReaderAt \<Rightarrow> int64" where
  "Size ra = sizev (meta ra)"

text \<open>
  Modelled from the spec: \<open>Clone\<close>, the method \<open>readChunk\<close> calls, is not in httpreadat.go.
  The spec: a derived, context-scoped clone of a reader reuses the cached metadata (no
  repeated probe) and is bound to its own cancellation scope.
\<close>

definition Clone :: "HTTPReaderAt \<Rightarrow> HTTPReaderAt" where
  "Clone ra = ra"

subsection \<open>Byte slices over a backing array\<close>

text \<open>
  A \<open>[]byte\<close> is a window of a backing array: where it starts, its length and its
  capacity. The backing array is passed and returned explicitly, so that two slices of
  one array share their bytes as they do in Go.
\<close>

record slice =
  ptr :: nat
  slen :: nat
  scap :: nat

datatype 'a go = Panic | Return 'a

text \<open>\<open>s[lo:hi]\<close>: a run-time panic unless \<open>0 \<le> lo \<le> hi \<le> cap(s)\<close>.\<close>

definition subslice :: "slice \<Rightarrow> int64 \<Rightarrow> int64 \<Rightarrow> slice option" where
  "subslice s lo hi =
     (if 0 \<le> lo \<and> lo \<le> hi \<and> hi \<le> int (scap s)
      then Some \<lparr> ptr = ptr s + nat lo, slen = nat (hi - lo), scap = scap s - nat lo \<rparr>
      else None)"

text \<open>
  \<open>io.ReadFull(body, buf)\<close> for a buffer of \<open>k\<close> bytes: the number of bytes read and the
  error. A body that ends cleanly after some, but fewer than \<open>k\<close>, bytes gives
  \<open>ErrUnexpectedEOF\<close>.
\<close>

definition ReadFull :: "byte list \<times> error \<Rightarrow> nat \<Rightarrow> nat \<times> error option" where
  "ReadFull body k =
     (if k \<le> length (fst body) then (k, None)
      else if 0 < length (fst body) \<and> snd body = EOF
           then (length (fst body), Some ErrUnexpectedEOF)
           else (length (fst body), Some (snd body)))"

text \<open>The backing array after the first \<open>k\<close> bytes of the body were stored at the start of \<open>p\<close>.\<close>

definition store :: "byte list \<Rightarrow> slice \<Rightarrow> byte list \<Rightarrow> nat \<Rightarrow> byte list" where
  "store mem p bs k = take (ptr p) mem @ take k bs @ drop (ptr p + k) mem"

text \<open>
  \<open>ReadAt\<close> of httpreadat.go (lines 106-176), in its four steps. First the range it asks
  for: \<open>requestLast0\<close> is \<open>reqLast\<close> of line 113, \<open>clamped\<close> the test of line 116,
  \<open>requestLast\<close> is \<open>reqLast\<close> after line 119, and \<open>readBuffer\<close> is \<open>p\<close> after line 124
  (\<open>None\<close> when the slice expression panics).
\<close>

definition requestLast0 :: "slice \<Rightarrow> int64 \<Rightarrow> int64" where
  "requestLast0 p off = sub64 (add64 off (int (slen p))) 1"

definition clamped :: "HTTPReaderAt \<Rightarrow> slice \<Rightarrow> int64 \<Rightarrow> bool" where
  "clamped ra p off =
     (sizev (meta ra) \<noteq> - 1 \<and> sub64 (sizev (meta ra)) 1 < requestLast0 p off)"

definition requestLast :: "HTTPReaderAt \<Rightarrow> slice \<Rightarrow> int64 \<Rightarrow> int64" where
  "requestLast ra p off =
     (if clamped ra p off then sub64 (sizev (meta ra)) 1 else requestLast0 p off)"

definition readBuffer :: "HTTPReaderAt \<Rightarrow> slice \<Rightarrow> int64 \<Rightarrow> slice option" where
  "readBuffer ra p off =
     (if clamped ra p off then subslice p 0 (add64 (sub64 (requestLast ra p off) off) 1)
      else Some p)"

text \<open>
  The checks on the response (lines 136-157), in the order of the source: the error
  \<open>ReadAt\<close> returns, or \<open>None\<close> when the response passes them all.
\<close>

definition checkResponse :: "HTTPReaderAt \<Rightarrow> response \<Rightarrow> int64 \<Rightarrow> int64 \<Rightarrow> error option" where
  "checkResponse ra resp reqFirst reqLast =
     (if StatusCode resp \<noteq> 206 then Some (UnexpectStatusNoRange (Status resp))
      else
        (case getMeta resp of
           Inl err \<Rightarrow> Some err
         | Inr m \<Rightarrow>
             (if sizev (meta ra) \<noteq> sizev m \<or>
                 lastModified (meta ra) \<noteq> lastModified m \<or>
                 etag (meta ra) \<noteq> etag m
              then Some ErrValidationFailed
              else if start m \<noteq> reqFirst \<or> reqLast < endv m
              then Some (DifferentRange reqFirst reqLast (start m) (endv m))
              else if ContentLength resp \<noteq> add64 (sub64 (endv m) (start m)) 1
              then Some ContentLengthMismatch
              else None)))"

text \<open>
  The body read and the error that is returned with it (lines 158-175): \<open>k\<close> is the length
  of the buffer, \<open>returnErr\<close> the error remembered when the range was clamped. The message
  printed when the count differs from Content-Length (lines 164-168) changes nothing
  that is returned.
\<close>

definition readBody :: "response \<Rightarrow> nat \<Rightarrow> error option \<Rightarrow> nat \<times> error option" where
  "readBody resp k returnErr =
     (let res = ReadFull (Body resp) k;
          err1 = (if snd res = Some ErrUnexpectedEOF then Some EOF else snd res);
          err2 = (if err1 = None \<and> returnErr \<noteq> None then returnErr else err1)
      in (fst res, err2))"

text \<open>
  The result of \<open>ReadAt\<close> is the backing array after the call, the count \<open>n\<close>, the error
  (\<open>None\<close> is nil) and the request that was sent, if one was.
\<close>

definition ReadAt ::
  "HTTPReaderAt \<Rightarrow> byte list \<Rightarrow> slice \<Rightarrow> int64
     \<Rightarrow> (byte list \<times> int \<times> error option \<times> request option) go" where
  "ReadAt ra mem p off =
     (if slen p = 0 then Return (mem, 0, None, None)
      else
        (let reqFirst = off;
             reqLast = requestLast ra p off;
             returnErr = (if clamped ra p off then Some EOF else None)
         in if clamped ra p off \<and> reqLast < reqFirst then Return (mem, 0, Some EOF, None)
            else
              (case readBuffer ra p off of
                 None \<Rightarrow> Panic
               | Some p' \<Rightarrow>
                   (let r = rangeRequest ra (HttpHeaderRangeFormat reqFirst reqLast)
                    in case client ra r of
                         Inl err \<Rightarrow> Return (mem, 0, Some (HttpRequestError err), Some r)
                       | Inr resp \<Rightarrow>
                           (case checkResponse ra resp reqFirst reqLast of
                              Some err \<Rightarrow> Return (mem, 0, Some err, Some r)
                            | None \<Rightarrow>
                                (let res = readBody resp (slen p') returnErr
                                 in Return (store mem p' (fst (Body resp)) (fst res),
                                            int (fst res), snd res, Some r)))))))"

section \<open>The chunk planner\<close>

record memoryTaskType =
  Offset :: int64
  Content :: slice

record fileTaskType =
  Offset_f :: int64
  Size_f :: int64

definition chunkSize :: int64 where
  "chunkSize = 64 * 1024"

definition zeroMemoryTask :: memoryTaskType where
  "zeroMemoryTask = \<lparr> Offset = 0, Content = \<lparr> ptr = 0, slen = 0, scap = 0 \<rparr> \<rparr>"

definition zeroFileTask :: fileTaskType where
  "zeroFileTask = \<lparr> Offset_f = 0, Size_f = 0 \<rparr>"

text \<open>
  The loop of \<open>makeMemoryTask\<close> (down.go, lines 196-200), from counter \<open>i\<close>: it returns the
  final offset and the filled list. The counter stays below \<open>taskCount\<close>, so \<open>i++\<close> cannot
  overflow.
\<close>

function memoryTaskLoop ::
  "int64 \<Rightarrow> int64 \<Rightarrow> int64 \<Rightarrow> slice \<Rightarrow> memoryTaskType list
     \<Rightarrow> (int64 \<times> memoryTaskType list) go" where
  "memoryTaskLoop i taskCount offset buf taskList =
     (if i < taskCount then
        (case subslice buf offset (add64 offset chunkSize) of
           None \<Rightarrow> Panic
         | Some w \<Rightarrow>
             memoryTaskLoop (i + 1) taskCount (add64 offset chunkSize) buf
               (taskList[nat i := \<lparr> Offset = offset, Content = w \<rparr>]))
      else Return (offset, taskList))"
  by pat_completeness auto
termination
  by (relation "measure (\<lambda>(i, taskCount, offset, buf, taskList). nat (taskCount - i))") auto

declare memoryTaskLoop.simps [simp del]

text \<open>\<open>makeMemoryTask\<close> of down.go (lines 189-208). \<open>make\<close> panics on a negative length.\<close>

definition makeMemoryTask :: "int64 \<Rightarrow> slice \<Rightarrow> memoryTaskType list go" where
  "makeMemoryTask totalSize buf =
     (let taskCount = quo64 totalSize chunkSize
      in if taskCount < 0 then Panic
         else
           (case memoryTaskLoop 0 taskCount 0 buf (replicate (nat taskCount) zeroMemoryTask) of
              Panic \<Rightarrow> Panic
            | Return (offset, taskList) \<Rightarrow>
                (if offset < totalSize then
                   (case subslice buf offset totalSize of
                      None \<Rightarrow> Panic
                    | Some w \<Rightarrow> Return (taskList @ [\<lparr> Offset = offset, Content = w \<rparr>]))
                 else Return taskList)))"

text \<open>The loop of \<open>makeFileTask\<close> (down.go, lines 144-148).\<close>

function fileTaskLoop ::
  "int64 \<Rightarrow> int64 \<Rightarrow> int64 \<Rightarrow> fileTaskType list \<Rightarrow> int64 \<times> fileTaskType list" where
  "fileTaskLoop i taskCount offset taskList =
     (if i < taskCount then
        fileTaskLoop (i + 1) taskCount (add64 offset chunkSize)
          (taskList[nat i := \<lparr> Offset_f = offset, Size_f = chunkSize \<rparr>])
      else (offset, taskList))"
  by pat_completeness auto
termination
  by (relation "measure (\<lambda>(i, taskCount, offset, taskList). nat (taskCount - i))") auto

declare fileTaskLoop.simps [simp del]

text \<open>
  \<open>makeFileTask\<close> of down.go (lines 139-161). The channel it returns is filled in list
  order and closed, so it is modelled by the list of its elements.
\<close>

definition makeFileTask :: "int64 \<Rightarrow> fileTaskType list go" where
  "makeFileTask totalSize =
     (let taskCount = quo64 totalSize chunkSize
      in if taskCount < 0 then Panic
         else
           (case fileTaskLoop 0 taskCount 0 (replicate (nat taskCount) zeroFileTask) of
              (offset, taskList) \<Rightarrow>
                (if offset < totalSize
                 then Return (taskList @ [\<lparr> Offset_f = offset, Size_f = sub64 totalSize offset \<rparr>])
                 else Return taskList)))"

section \<open>The buffer-mode download\<close>

text \<open>\<open>readChunk\<close> of down.go (lines 172-187): the backing array after the read, and the error.\<close>

definition readChunk ::
  "HTTPReaderAt \<Rightarrow> byte list \<Rightarrow> memoryTaskType \<Rightarrow> (byte list \<times> error option) go" where
  "readChunk preReader mem task =
     (let chunkReader = Clone preReader
      in case ReadAt chunkReader mem (Content task) (Offset task) of
           Panic \<Rightarrow> Panic
         | Return (mem', n, err, sent) \<Rightarrow>
             (case err of
                Some e \<Rightarrow> Return (mem', Some e)
              | None \<Rightarrow>
                  (if n \<noteq> int (slen (Content task))
                   then Return (mem', Some (DownloadSizeNotEqual n (slen (Content task)) (Offset task)))
                   else Return (mem', None))))"

text \<open>
  The worker pool of \<open>Do\<close> (down.go, lines 37-56). The 48 workers drain the queue
  concurrently and \<open>group.Wait\<close> returns the first error a worker returned. The list
  given here is the tasks in the order in which their reads complete: the reads before
  the first failing one have stored their bytes, and the first failure is the result.
  A worker that finds \<open>errCtx\<close> done returns nil (lines 42-46). That happens after the
  first error, and when the caller's context is cancelled: \<open>cancelAfter = Some k\<close> says
  that the context \<open>Do\<close> was given is cancelled once \<open>k\<close> chunk reads have been started
  (\<open>Some 0\<close>: before the first), \<open>None\<close> that it stays live. The reads not started are
  skipped, and no error comes of them.
\<close>

fun runTasks ::
  "HTTPReaderAt \<Rightarrow> nat option \<Rightarrow> byte list \<Rightarrow> memoryTaskType list
     \<Rightarrow> (error + byte list) go" where
  "runTasks preRead cancelAfter mem [] = Return (Inr mem)"
| "runTasks preRead cancelAfter mem (task # rest) =
     (if cancelAfter = Some 0 then Return (Inr mem)
      else
        (case readChunk preRead mem task of
           Panic \<Rightarrow> Panic
         | Return (mem', Some e) \<Rightarrow> Return (Inl e)
         | Return (mem', None) \<Rightarrow>
             runTasks preRead (map_option (\<lambda>k. k - 1) cancelAfter) mem' rest))"

text \<open>
  \<open>http.NewRequestWithContext(ctx, method, url, nil)\<close>. Whether the library refuses the
  context or the URL is not modelled: \<open>refusal\<close> is its error when it does. Otherwise it
  returns \<open>newRequest method url\<close>, a request with no header and no body.
\<close>

definition newRequest :: "string \<Rightarrow> string \<Rightarrow> request" where
  "newRequest method url =
     \<lparr> Method = method, URL = url, ReqHeader = [], ReqContentLength = 0, ReqBody = None \<rparr>"

definition NewRequestWithContext :: "error option \<Rightarrow> string \<Rightarrow> string \<Rightarrow> error + request" where
  "NewRequestWithContext refusal method url =
     (case refusal of Some err \<Rightarrow> Inl err | None \<Rightarrow> Inr (newRequest method url))"

text \<open>
  \<open>Do\<close> of down.go (lines 17-58). \<open>refusal\<close> is passed on to \<open>NewRequestWithContext\<close>;
  \<open>cancelAfter\<close> says when the caller's context is cancelled, if it is; \<open>sched\<close> is the
  scheduler: it gives the order in which the planned tasks complete.
  \<open>Return (Inl err)\<close> is \<open>(nil, err)\<close> and \<open>Return (Inr buf)\<close> is \<open>(buf, nil)\<close>. Memory is
  not bounded: \<open>make\<close> panics on a negative length only.
\<close>

definition Do ::
  "error option \<Rightarrow> Requester option \<Rightarrow> string \<Rightarrow> nat option
     \<Rightarrow> (memoryTaskType list \<Rightarrow> memoryTaskType list) \<Rightarrow> (error + byte list) go" where
  "Do refusal clt url cancelAfter sched =
     (case NewRequestWithContext refusal ''GET'' url of
        Inl err \<Rightarrow> Return (Inl err)
      | Inr rq \<Rightarrow>
          (case New clt (Some rq) of
             Inl err \<Rightarrow> Return (Inl err)
           | Inr preRead \<Rightarrow>
               (let totalSize = Size preRead
                in if totalSize < 0 then Panic
                   else
                     (let mem = replicate (nat totalSize) (0 :: byte);
                          buf = \<lparr> ptr = 0, slen = nat totalSize, scap = nat totalSize \<rparr>
                      in case makeMemoryTask totalSize buf of
                           Panic \<Rightarrow> Panic
                         | Return taskList \<Rightarrow>
                             runTasks preRead cancelAfter mem (sched taskList)))))"

section \<open>The chunk plan, as the specification words it\<close>

text \<open>
  For a total size \<open>T\<close>: \<open>T div chunkSize\<close> full chunks at the offsets \<open>0\<close>, \<open>chunkSize\<close>,
  \<open>2 * chunkSize\<close>, ..., then one trailing chunk of \<open>T mod chunkSize\<close> bytes when \<open>T\<close> is
  not a multiple of the chunk size. Each entry is an offset and a size.
\<close>

definition chunkPlan :: "int \<Rightarrow> (int \<times> int) list" where
  "chunkPlan T =
     map (\<lambda>k. (int k * chunkSize, chunkSize)) [0..<nat (T div chunkSize)] @
     (if T mod chunkSize = 0 then [] else [((T div chunkSize) * chunkSize, T mod chunkSize)])"

text \<open>The bytes \<open>[offset, offset + size)\<close> of a plan entry.\<close>

definition byteRange :: "int \<times> int \<Rightarrow> int set" where
  "byteRange os = {fst os ..< fst os + snd os}"

text \<open>The slice \<open>buf[off : off + sz]\<close>, when it is in range.\<close>

definition window :: "slice \<Rightarrow> int \<Rightarrow> int \<Rightarrow> slice" where
  "window buf off sz = \<lparr> ptr = ptr buf + nat off, slen = nat sz, scap = scap buf - nat off \<rparr>"

section \<open>Notions the properties are stated in\<close>

text \<open>
  The error of one chunk read. It does not depend on the bytes the buffer holds, so it
  is read off a run on an empty backing array.
\<close>

definition chunkError :: "HTTPReaderAt \<Rightarrow> memoryTaskType \<Rightarrow> error option go" where
  "chunkError preRead task =
     (case readChunk preRead [] task of Panic \<Rightarrow> Panic | Return (mem', err) \<Rightarrow> Return err)"

text \<open>
  Sequential single-shot ranged reads, as the specification words them: starting at
  \<open>off\<close>, one \<open>ReadAt\<close> into a fresh buffer for each length of the list, each read
  required to fill its buffer without an error, the buffers concatenated.
\<close>

fun sequentialReads :: "HTTPReaderAt \<Rightarrow> int64 \<Rightarrow> nat list \<Rightarrow> byte list option" where
  "sequentialReads ra off [] = Some []"
| "sequentialReads ra off (l # ls) =
     (case ReadAt ra (replicate l 0) \<lparr> ptr = 0, slen = l, scap = l \<rparr> off of
        Return (mem', n, None, sent) \<Rightarrow>
          (if n = int l then map_option (\<lambda>rest. mem' @ rest) (sequentialReads ra (off + int l) ls)
           else None)
      | _ \<Rightarrow> None)"

text \<open>
  A transport that honours Range requests on a resource with stable metadata: every
  request of the reader for bytes \<open>a\<close> to \<open>b\<close> inside the resource is answered with 206,
  a Content-Range that says \<open>a-b/T\<close>, the same Last-Modified and ETag each time, and a
  body that is exactly those bytes.
\<close>

definition honorsRange :: "Requester \<Rightarrow> request \<Rightarrow> byte list \<Rightarrow> string \<Rightarrow> string \<Rightarrow> bool" where
  "honorsRange clt rq content lm tag =
     (\<forall>a b. 0 \<le> a \<and> a \<le> b \<and> b < int (length content) \<longrightarrow>
        (case clt (rangeRequest \<lparr> client = clt, req = rq, meta = zeroMeta \<rparr>
                     (HttpHeaderRangeFormat a b)) of
           Inl e \<Rightarrow> False
         | Inr resp \<Rightarrow>
             StatusCode resp = 206 \<and>
             getMeta resp =
               Inr \<lparr> start = a, endv = b, sizev = int (length content), lastModified = lm,
                     etag = tag, contentType = Header_Get (Header resp) ''Content-Type'' \<rparr> \<and>
             ContentLength resp = b - a + 1 \<and>
             Body resp = (take (nat (b - a + 1)) (drop (nat a) content), EOF)))"

text \<open>The tasks whose reads are started before the caller's context is cancelled.\<close>

definition started :: "nat option \<Rightarrow> 'a list \<Rightarrow> 'a list" where
  "started cancelAfter ts = (case cancelAfter of None \<Rightarrow> ts | Some k \<Rightarrow> take k ts)"

text \<open>Byte \<open>i\<close> of the buffer lies in the window of one of the tasks.\<close>

definition covered :: "memoryTaskType list \<Rightarrow> nat \<Rightarrow> bool" where
  "covered ts i = (\<exists>t \<in> set ts. ptr (Content t) \<le> i \<and> i < ptr (Content t) + slen (Content t))"

section \<open>Example requests and transports\<close>

text \<open>The request \<open>Do\<close> builds for the URL \<open>http://example/file\<close>.\<close>

definition getReq :: request where
  "getReq = \<lparr> Method = ''GET'', URL = ''http://example/file'', ReqHeader = [],
              ReqContentLength = 0, ReqBody = None \<rparr>"

text \<open>A transport that answers every request with 206 and no Content-Range header.\<close>

definition bareProbe :: Requester where
  "bareProbe r = Inr \<lparr> Status = ''206 Partial Content'', StatusCode = 206, Header = [],
                        ContentLength = 1, Body = ([7], EOF) \<rparr>"

text \<open>A transport that answers every request with 206 and an unknown total length.\<close>

definition starProbe :: Requester where
  "starProbe r = Inr \<lparr> Status = ''206 Partial Content'', StatusCode = 206,
                        Header = [(''Content-Range'', ''bytes 0-0/*'')],
                        ContentLength = 1, Body = ([7], EOF) \<rparr>"

text \<open>A transport that answers every request with 206 and a negative total length.\<close>

definition negativeProbe :: Requester where
  "negativeProbe r = Inr \<lparr> Status = ''206 Partial Content'', StatusCode = 206,
                            Header = [(''Content-Range'', ''bytes 0-0/-5'')],
                            ContentLength = 1, Body = ([7], EOF) \<rparr>"

text \<open>
  A reference server for a resource: it answers a satisfiable \<open>bytes=a-b\<close> request with
  206 and the bytes, cut at the end of the resource, and everything else with 416.
\<close>

definition serve :: "byte list \<Rightarrow> string \<Rightarrow> string \<Rightarrow> Requester" where
  "serve content lm tag r =
     (let T = int (length content);
          unsat = \<lparr> Status = ''416 Range Not Satisfiable'', StatusCode = 416,
                    Header = [(''Content-Range'', ''bytes */'' @ fmtInt T)],
                    ContentLength = 0, Body = ([], EOF) \<rparr>
      in case Split (Header_Get (ReqHeader r) ''Range'') (CHR ''='') of
           [unit, spec] \<Rightarrow>
             (case Split spec (CHR ''-'') of
                [firstPart, lastPart] \<Rightarrow>
                  (case (ParseInt firstPart, ParseInt lastPart) of
                     (Some a, Some b) \<Rightarrow>
                       (if unit = ''bytes'' \<and> 0 \<le> a \<and> a \<le> b \<and> a < T then
                          (let e = min b (T - 1)
                           in Inr \<lparr> Status = ''206 Partial Content'', StatusCode = 206,
                                    Header = [(''Content-Range'',
                                                ''bytes '' @ fmtInt a @ ''-'' @ fmtInt e @ ''/'' @ fmtInt T),
                                              (''Last-Modified'', lm), (''ETag'', tag)],
                                    ContentLength = e - a + 1,
                                    Body = (take (nat (e - a + 1)) (drop (nat a) content), EOF) \<rparr>)
                        else Inr unsat)
                   | _ \<Rightarrow> Inr unsat)
              | _ \<Rightarrow> Inr unsat)
         | _ \<Rightarrow> Inr unsat)"

text \<open>
  A transport for a resource of 65538 bytes (two chunks): the request for the first chunk
  fails in the transport, the answer to the request for the second carries another ETag
  than the probe's. \<open>flakyReader\<close> is the reader its probe constructs and \<open>flakyTasks\<close>
  the plan for its size.
\<close>

definition flaky :: Requester where
  "flaky r =
     (if Header_Get (ReqHeader r) ''Range'' = ''bytes=0-0'' then
        Inr \<lparr> Status = ''206 Partial Content'', StatusCode = 206,
              Header = [(''Content-Range'', ''bytes 0-0/65538''), (''ETag'', ''v1'')],
              ContentLength = 1, Body = ([0], EOF) \<rparr>
      else if Header_Get (ReqHeader r) ''Range'' = ''bytes=0-65535'' then
        Inl (Other ''connection reset'')
      else
        Inr \<lparr> Status = ''206 Partial Content'', StatusCode = 206,
              Header = [(''Content-Range'', ''bytes 65536-65537/65538''), (''ETag'', ''v2'')],
              ContentLength = 2, Body = ([9, 9], EOF) \<rparr>)"

definition flakyReader :: HTTPReaderAt where
  "flakyReader = \<lparr> client = flaky, req = getReq,
       meta = \<lparr> start = 0, endv = 0, sizev = 65538, lastModified = [], etag = ''v1'',
                contentType = [] \<rparr> \<rparr>"

definition flakyTasks :: "memoryTaskType list" where
  "flakyTasks = [\<lparr> Offset = 0, Content = \<lparr> ptr = 0, slen = 65536, scap = 65538 \<rparr> \<rparr>,
                 \<lparr> Offset = 65536, Content = \<lparr> ptr = 65536, slen = 2, scap = 2 \<rparr> \<rparr>]"

text \<open>A transport that fails, and a reader whose cached size is 10.\<close>

definition refusing :: Requester where
  "refusing r = Inl (Other ''connection refused'')"

definition metaTen :: Meta where
  "metaTen = \<lparr> start = 0, endv = 0, sizev = 10, lastModified = ''Mon'', etag = ''v1'', contentType = [] \<rparr>"

definition shortBody :: Requester where
  "shortBody r = Inr \<lparr> Status = ''206 Partial Content'', StatusCode = 206,
       Header = [(''Content-Range'', ''bytes 0-3/10''), (''Last-Modified'', ''Mon''), (''ETag'', ''v1'')],
       ContentLength = 4, Body = ([1, 2], EOF) \<rparr>"

definition changedTag :: Requester where
  "changedTag r = Inr \<lparr> Status = ''206 Partial Content'', StatusCode = 206,
       Header = [(''Content-Range'', ''bytes 0-3/10''), (''Last-Modified'', ''Mon''), (''ETag'', ''v2'')],
       ContentLength = 4, Body = ([1, 2, 3, 4], EOF) \<rparr>"

section \<open>Arithmetic within the \<open>int64\<close> range\<close>

lemma NewRequest_example:
  "NewRequestWithContext None ''GET'' ''http://example/file'' = Inr getReq"
  by (simp add: NewRequestWithContext_def newRequest_def getReq_def)

lemma NewRequest_url:
  "NewRequestWithContext None ''GET'' url = Inr (newRequest ''GET'' url)"
  by (simp add: NewRequestWithContext_def)

lemma wrap64_id: "- (2 ^ 63) \<le> x \<Longrightarrow> x < 2 ^ 63 \<Longrightarrow> wrap64 x = x"
  unfolding wrap64_def by (simp add: mod_pos_pos_trivial)

lemma take_Suc_update: "k < length xs \<Longrightarrow> take (Suc k) (xs[k := x]) = take k xs @ [x]"
  by (simp add: take_Suc_conv_app_nth)

section \<open>The chunk planner covers \<open>[0, T)\<close> exactly\<close>

lemma fileTaskLoop_result:
  "0 \<le> i \<Longrightarrow> i \<le> tc \<Longrightarrow> length ts = nat tc \<Longrightarrow> tc * chunkSize < 2 ^ 63 \<Longrightarrow>
   offset = i * chunkSize \<Longrightarrow>
   fileTaskLoop i tc offset ts =
     (tc * chunkSize,
      take (nat i) ts @
      map (\<lambda>k. \<lparr> Offset_f = int k * chunkSize, Size_f = chunkSize \<rparr>) [nat i..<nat tc])"
proof (induction i tc offset ts rule: fileTaskLoop.induct)
  case (1 i taskCount offset taskList)
  show ?case
  proof (cases "i < taskCount")
    case False
    then have "fileTaskLoop i taskCount offset taskList = (offset, taskList)"
      by (subst fileTaskLoop.simps) simp
    with False 1(2-6) show ?thesis by simp
  next
    case True
    have lo: "- (2 ^ 63) \<le> offset + chunkSize"
      using 1(2,6) by (simp add: chunkSize_def)
    have hi: "offset + chunkSize < 2 ^ 63"
      using True 1(5,6) by (simp add: chunkSize_def)
    have a: "add64 offset chunkSize = (i + 1) * chunkSize"
      unfolding add64_def using wrap64_id [OF lo hi] 1(6) by (simp add: algebra_simps)
    have k: "nat i < length taskList" using True 1(2,4) by simp
    have n: "nat (i + 1) = Suc (nat i)" using 1(2) by simp
    have u: "[nat i..<nat taskCount] = nat i # [Suc (nat i)..<nat taskCount]"
      using True 1(2) by (simp add: upt_conv_Cons)
    have "fileTaskLoop i taskCount offset taskList =
          fileTaskLoop (i + 1) taskCount (add64 offset chunkSize)
            (taskList[nat i := \<lparr> Offset_f = offset, Size_f = chunkSize \<rparr>])"
      using True by (subst fileTaskLoop.simps) simp
    also have "\<dots> = (taskCount * chunkSize,
        take (nat (i + 1)) (taskList[nat i := \<lparr> Offset_f = offset, Size_f = chunkSize \<rparr>]) @
        map (\<lambda>k. \<lparr> Offset_f = int k * chunkSize, Size_f = chunkSize \<rparr>) [nat (i + 1)..<nat taskCount])"
      using True 1(2,4,5) a by (intro "1.IH") auto
    also have "\<dots> = (taskCount * chunkSize,
        take (nat i) taskList @
        map (\<lambda>k. \<lparr> Offset_f = int k * chunkSize, Size_f = chunkSize \<rparr>) [nat i..<nat taskCount])"
      using k 1(2,6) by (simp add: n u take_Suc_update)
    finally show ?thesis .
  qed
qed

lemma quo64_nonneg: "0 \<le> T \<Longrightarrow> quo64 T chunkSize = T div chunkSize"
  by (simp add: quo64_def)

lemma memoryTaskLoop_result:
  "0 \<le> i \<Longrightarrow> i \<le> tc \<Longrightarrow> length ts = nat tc \<Longrightarrow> tc * chunkSize < 2 ^ 63 \<Longrightarrow>
   tc * chunkSize \<le> int (scap buf) \<Longrightarrow> offset = i * chunkSize \<Longrightarrow>
   memoryTaskLoop i tc offset buf ts =
     Return (tc * chunkSize,
      take (nat i) ts @
      map (\<lambda>k. \<lparr> Offset = int k * chunkSize, Content = window buf (int k * chunkSize) chunkSize \<rparr>)
        [nat i..<nat tc])"
proof (induction i tc offset buf ts rule: memoryTaskLoop.induct)
  case (1 i taskCount offset buf taskList)
  show ?case
  proof (cases "i < taskCount")
    case False
    then have "memoryTaskLoop i taskCount offset buf taskList = Return (offset, taskList)"
      by (subst memoryTaskLoop.simps) simp
    with False 1(2-7) show ?thesis by simp
  next
    case True
    have lo: "- (2 ^ 63) \<le> offset + chunkSize"
      using 1(2,7) by (simp add: chunkSize_def)
    have hi: "offset + chunkSize < 2 ^ 63"
      using True 1(5,7) by (simp add: chunkSize_def)
    have a: "add64 offset chunkSize = offset + chunkSize"
      unfolding add64_def using wrap64_id [OF lo hi] .
    have a': "offset + chunkSize = (i + 1) * chunkSize"
      using 1(7) by (simp add: algebra_simps)
    have fits: "offset + chunkSize \<le> int (scap buf)"
      using True 1(6,7) by (simp add: chunkSize_def)
    have o0: "0 \<le> offset" using 1(2,7) by (simp add: chunkSize_def)
    have w: "subslice buf offset (add64 offset chunkSize) = Some (window buf offset chunkSize)"
      unfolding a using fits o0 by (simp add: subslice_def window_def chunkSize_def)
    have k: "nat i < length taskList" using True 1(2,4) by simp
    have n: "nat (i + 1) = Suc (nat i)" using 1(2) by simp
    have u: "[nat i..<nat taskCount] = nat i # [Suc (nat i)..<nat taskCount]"
      using True 1(2) by (simp add: upt_conv_Cons)
    let ?f = "\<lambda>k. \<lparr> Offset = int k * chunkSize, Content = window buf (int k * chunkSize) chunkSize \<rparr>"
    let ?ts = "taskList[nat i := \<lparr> Offset = offset, Content = window buf offset chunkSize \<rparr>]"
    have "memoryTaskLoop i taskCount offset buf taskList =
          memoryTaskLoop (i + 1) taskCount (add64 offset chunkSize) buf ?ts"
      using True w by (subst memoryTaskLoop.simps) simp
    also have "\<dots> = Return (taskCount * chunkSize,
        take (nat (i + 1)) ?ts @ map ?f [nat (i + 1)..<nat taskCount])"
      using True 1(2,4,5,6) a a' w by (intro "1.IH") auto
    also have "\<dots> = Return (taskCount * chunkSize,
        take (nat i) taskList @ map ?f [nat i..<nat taskCount])"
      using k 1(2,7) by (simp add: n u take_Suc_update)
    finally show ?thesis .
  qed
qed

lemma makeMemoryTask_plan:
  assumes "0 \<le> T" and "T < 2 ^ 63" and "T \<le> int (scap buf)"
  shows "makeMemoryTask T buf =
           Return (map (\<lambda>os. \<lparr> Offset = fst os, Content = window buf (fst os) (snd os) \<rparr>) (chunkPlan T))"
proof -
  have c: "chunkSize = 65536" by (simp add: chunkSize_def)
  let ?tc = "T div chunkSize"
  let ?f = "\<lambda>k. \<lparr> Offset = int k * chunkSize, Content = window buf (int k * chunkSize) chunkSize \<rparr>"
  have tc0: "0 \<le> ?tc" using assms by (simp add: c)
  have le: "?tc * chunkSize \<le> T" using assms by (simp add: c)
  have eq: "T - ?tc * chunkSize = T mod chunkSize"
    by (simp add: minus_div_mult_eq_mod)
  have loop: "memoryTaskLoop 0 ?tc 0 buf (replicate (nat ?tc) zeroMemoryTask) =
      Return (?tc * chunkSize, map ?f [0..<nat ?tc])"
    using tc0 le assms by (subst memoryTaskLoop_result) auto
  have lt: "?tc * chunkSize < T \<longleftrightarrow> T mod chunkSize \<noteq> 0"
    using le eq by (auto simp: c)
  have w: "subslice buf (?tc * chunkSize) T = Some (window buf (?tc * chunkSize) (T mod chunkSize))"
    using le tc0 assms(3) eq by (simp add: subslice_def window_def c)
  show ?thesis
    using tc0 by (auto simp: makeMemoryTask_def quo64_nonneg assms Let_def loop w lt chunkPlan_def o_def)
qed

lemma makeFileTask_plan:
  assumes "0 \<le> T" and "T < 2 ^ 63"
  shows "makeFileTask T = Return (map (\<lambda>os. \<lparr> Offset_f = fst os, Size_f = snd os \<rparr>) (chunkPlan T))"
proof -
  have c: "chunkSize = 65536" by (simp add: chunkSize_def)
  let ?tc = "T div chunkSize"
  have tc0: "0 \<le> ?tc" using assms by (simp add: c)
  have le: "?tc * chunkSize \<le> T" using assms by (simp add: c)
  have eq: "T - ?tc * chunkSize = T mod chunkSize"
    by (simp add: minus_div_mult_eq_mod)
  have loop: "fileTaskLoop 0 ?tc 0 (replicate (nat ?tc) zeroFileTask) =
      (?tc * chunkSize, map (\<lambda>k. \<lparr> Offset_f = int k * chunkSize, Size_f = chunkSize \<rparr>) [0..<nat ?tc])"
    using tc0 le assms by (subst fileTaskLoop_result) auto
  have s: "sub64 T (?tc * chunkSize) = T mod chunkSize"
    unfolding sub64_def eq using assms by (intro wrap64_id) (auto simp: c intro: order.strict_trans1 [OF _ assms(2)] order.trans [OF _ pos_mod_sign])
  have lt: "?tc * chunkSize < T \<longleftrightarrow> T mod chunkSize \<noteq> 0"
    using le eq by (auto simp: c)
  show ?thesis
    using tc0 by (auto simp: makeFileTask_def quo64_nonneg assms Let_def loop s lt chunkPlan_def o_def)
qed

lemma length_chunkPlan:
  "length (chunkPlan T) = nat (T div chunkSize) + (if T mod chunkSize = 0 then 0 else 1)"
  by (simp add: chunkPlan_def)

lemma chunkPlan_nth:
  assumes "0 \<le> T" and "i < length (chunkPlan T)"
  shows "chunkPlan T ! i =
           (int i * chunkSize, if int i < T div chunkSize then chunkSize else T mod chunkSize)"
proof (cases "i < nat (T div chunkSize)")
  case True
  moreover from True have "int i < T div chunkSize" by linarith
  ultimately show ?thesis by (simp add: chunkPlan_def nth_append)
next
  case False
  with assms have "i = nat (T div chunkSize)" and "T mod chunkSize \<noteq> 0"
    by (auto simp: length_chunkPlan split: if_splits)
  moreover have "0 \<le> T div chunkSize" using assms by (simp add: chunkSize_def)
  ultimately show ?thesis by (simp add: chunkPlan_def nth_append)
qed

lemma chunkPlan_size_bounds:
  assumes "0 \<le> T" and "i < length (chunkPlan T)"
  shows "0 < snd (chunkPlan T ! i)" and "snd (chunkPlan T ! i) \<le> chunkSize"
    and "fst (chunkPlan T ! i) + snd (chunkPlan T ! i) \<le> T"
    and "0 \<le> fst (chunkPlan T ! i)"
proof -
  have c: "chunkSize = 65536" by (simp add: chunkSize_def)
  have m: "0 \<le> T mod chunkSize" "T mod chunkSize < chunkSize" by (simp_all add: c)
  have d: "T div chunkSize * chunkSize + T mod chunkSize = T" by simp
  have q: "0 \<le> T div chunkSize" using assms by (simp add: c)
  have i: "int i \<le> T div chunkSize" "\<not> int i < T div chunkSize \<Longrightarrow> T mod chunkSize \<noteq> 0"
    using assms q by (auto simp: length_chunkPlan split: if_splits)
  show "0 < snd (chunkPlan T ! i)" using m i by (auto simp: chunkPlan_nth assms c)
  show "snd (chunkPlan T ! i) \<le> chunkSize" using m by (simp add: chunkPlan_nth assms)
  show "0 \<le> fst (chunkPlan T ! i)" by (simp add: chunkPlan_nth assms c)
  show "fst (chunkPlan T ! i) + snd (chunkPlan T ! i) \<le> T"
  proof (cases "int i < T div chunkSize")
    case True
    then have "(int i + 1) * chunkSize \<le> T div chunkSize * chunkSize" by (simp add: c)
    also have "\<dots> \<le> T" using d m by linarith
    finally show ?thesis using True by (simp add: chunkPlan_nth assms algebra_simps)
  next
    case False
    with i have "int i = T div chunkSize" by simp
    with False d show ?thesis by (simp add: chunkPlan_nth assms)
  qed
qed

lemma chunkPlan_disjoint:
  assumes "0 \<le> T" and "i < length (chunkPlan T)" and "j < length (chunkPlan T)" and "i \<noteq> j"
  shows "byteRange (chunkPlan T ! i) \<inter> byteRange (chunkPlan T ! j) = {}"
proof -
  have c: "chunkSize = 65536" by (simp add: chunkSize_def)
  have step: "byteRange (chunkPlan T ! a) \<inter> byteRange (chunkPlan T ! b) = {}"
    if "a < b" and "a < length (chunkPlan T)" and "b < length (chunkPlan T)" for a b
  proof -
    have "snd (chunkPlan T ! a) \<le> chunkSize" using that assms(1) by (simp add: chunkPlan_size_bounds)
    moreover have "fst (chunkPlan T ! a) = int a * chunkSize" "fst (chunkPlan T ! b) = int b * chunkSize"
      using that assms(1) by (simp_all add: chunkPlan_nth)
    moreover have "(int a + 1) * chunkSize \<le> int b * chunkSize" using that(1) by (simp add: c)
    ultimately show ?thesis by (auto simp: byteRange_def algebra_simps)
  qed
  from assms(4) consider "i < j" | "j < i" by linarith
  then show ?thesis
    using step [of i j] step [of j i] assms(2,3) by cases auto
qed

lemma chunkPlan_cover:
  assumes "0 \<le> T"
  shows "(\<Union>os \<in> set (chunkPlan T). byteRange os) = {0..<T}"
proof (intro equalityI subsetI)
  fix x assume "x \<in> (\<Union>os \<in> set (chunkPlan T). byteRange os)"
  then obtain i where i: "i < length (chunkPlan T)" and x: "x \<in> byteRange (chunkPlan T ! i)"
    by (auto simp: in_set_conv_nth)
  from chunkPlan_size_bounds [OF assms i] x show "x \<in> {0..<T}"
    by (auto simp: byteRange_def)
next
  fix x assume x: "x \<in> {0..<T}"
  have c: "chunkSize = 65536" by (simp add: chunkSize_def)
  let ?k = "nat (x div chunkSize)"
  from x have x0: "0 \<le> x" by simp
  have k0: "0 \<le> x div chunkSize" using x0 by (simp add: c pos_imp_zdiv_nonneg_iff)
  have kle: "x div chunkSize \<le> T div chunkSize" using x by (simp add: c zdiv_mono1)
  have xd: "x div chunkSize * chunkSize + x mod chunkSize = x" by simp
  have xm: "0 \<le> x mod chunkSize" "x mod chunkSize < chunkSize" by (simp_all add: c)
  have Td: "T div chunkSize * chunkSize + T mod chunkSize = T" by simp
  have lb: "x div chunkSize * chunkSize \<le> x" using xm(1) xd by linarith
  have ub: "x < x div chunkSize * chunkSize + chunkSize" using xm(2) xd by linarith
  have len: "?k < length (chunkPlan T)"
  proof (cases "x div chunkSize < T div chunkSize")
    case True
    then show ?thesis using k0 by (simp add: length_chunkPlan)
  next
    case False
    with kle have e: "x div chunkSize = T div chunkSize" by simp
    have "T mod chunkSize \<noteq> 0"
    proof
      assume "T mod chunkSize = 0"
      with Td xd e xm x show False by simp
    qed
    then show ?thesis using e k0 by (simp add: length_chunkPlan)
  qed
  have v: "chunkPlan T ! ?k =
      (x div chunkSize * chunkSize,
       if x div chunkSize < T div chunkSize then chunkSize else T mod chunkSize)"
    using chunkPlan_nth [OF assms len] k0 by simp
  have "x \<in> byteRange (chunkPlan T ! ?k)"
  proof (cases "x div chunkSize < T div chunkSize")
    case True
    then show ?thesis unfolding v byteRange_def using lb ub by simp
  next
    case False
    with kle have e: "x div chunkSize = T div chunkSize" by simp
    have "x < x div chunkSize * chunkSize + T mod chunkSize" using x Td e by simp
    then show ?thesis unfolding v byteRange_def using lb False by simp
  qed
  moreover have "chunkPlan T ! ?k \<in> set (chunkPlan T)" using len by (rule nth_mem)
  ultimately show "x \<in> (\<Union>os \<in> set (chunkPlan T). byteRange os)" by blast
qed

text \<open>
  C2. For every total size \<open>T \<ge> 0\<close> (an \<open>int64\<close>) both planners produce the plan of the
  specification: \<open>T div 65536\<close> full chunks at offsets 0, 65536, ... and then one chunk of
  \<open>T mod 65536\<close> bytes when that is not zero; the memory variant, given a buffer that holds
  \<open>T\<close> bytes, makes each task's content the window of the buffer at the task's offset.
  The byte ranges of the plan are pairwise disjoint and their union is \<open>[0, T)\<close>.
\<close>

theorem chunk_planner_partition:
  assumes "0 \<le> T" and "T < 2 ^ 63" and "T \<le> int (scap buf)"
  shows "makeFileTask T =
           Return (map (\<lambda>os. \<lparr> Offset_f = fst os, Size_f = snd os \<rparr>) (chunkPlan T)) \<and>
         makeMemoryTask T buf =
           Return (map (\<lambda>os. \<lparr> Offset = fst os, Content = window buf (fst os) (snd os) \<rparr>)
                     (chunkPlan T)) \<and>
         (\<forall>i < length (chunkPlan T). \<forall>j < length (chunkPlan T).
            i \<noteq> j \<longrightarrow> byteRange (chunkPlan T ! i) \<inter> byteRange (chunkPlan T ! j) = {}) \<and>
         (\<Union>os \<in> set (chunkPlan T). byteRange os) = {0..<T}"
  using assms
  by (simp add: makeFileTask_plan makeMemoryTask_plan chunkPlan_disjoint chunkPlan_cover)

theorem chunk_planner_partition_witness:
  "makeFileTask 200000 =
     Return [\<lparr> Offset_f = 0, Size_f = 65536 \<rparr>, \<lparr> Offset_f = 65536, Size_f = 65536 \<rparr>,
             \<lparr> Offset_f = 131072, Size_f = 65536 \<rparr>, \<lparr> Offset_f = 196608, Size_f = 3392 \<rparr>] \<and>
   makeMemoryTask 200000 \<lparr> ptr = 0, slen = 200000, scap = 200000 \<rparr> =
     Return [\<lparr> Offset = 0, Content = \<lparr> ptr = 0, slen = 65536, scap = 200000 \<rparr> \<rparr>,
             \<lparr> Offset = 65536, Content = \<lparr> ptr = 65536, slen = 65536, scap = 134464 \<rparr> \<rparr>,
             \<lparr> Offset = 131072, Content = \<lparr> ptr = 131072, slen = 65536, scap = 68928 \<rparr> \<rparr>,
             \<lparr> Offset = 196608, Content = \<lparr> ptr = 196608, slen = 3392, scap = 3392 \<rparr> \<rparr>] \<and>
   (\<Union>os \<in> set (chunkPlan 200000). byteRange os) = {0..<200000}"
proof -
  have p: "chunkPlan 200000 = [(0, 65536), (65536, 65536), (131072, 65536), (196608, 3392)]"
    by (simp add: chunkPlan_def chunkSize_def upt_rec)
  show ?thesis
    using chunk_planner_partition [of 200000 "\<lparr> ptr = 0, slen = 200000, scap = 200000 \<rparr>"]
    by (simp add: p window_def)
qed

section \<open>The Content-Range parser\<close>

lemma parseContentRange_error: "parseContentRange str = Inl e \<Longrightarrow> e = errParse"
  by (auto simp: parseContentRange_def split: list.splits option.splits if_splits)

text \<open>
  C5. The parser on the six inputs of the specification, and: no input parses to the
  triple in which first, last and length are all unknown (\<open>- 1\<close>), so an input that
  resolves to it is refused; the only error the parser returns is the parse error.
\<close>

theorem parseContentRange_examples:
  "parseContentRange ''bytes 42-1233/1234'' = Inr (42, 1233, 1234) \<and>
   parseContentRange ''bytes 42-1233/*'' = Inr (42, 1233, - 1) \<and>
   parseContentRange ''bytes */1234'' = Inr (- 1, - 1, 1234) \<and>
   parseContentRange ''garbage'' = Inl errParse \<and>
   parseContentRange ''bytes 42-1233'' = Inl errParse \<and>
   parseContentRange ''bytes -/-'' = Inl errParse \<and>
   parseContentRange str \<noteq> Inr (- 1, - 1, - 1) \<and>
   parseContentRange str \<in> insert (Inl errParse) (range Inr)"
proof -
  have "parseContentRange str \<noteq> Inr (- 1, - 1, - 1)"
    by (auto simp: parseContentRange_def split: list.splits option.splits if_splits)
  moreover have "parseContentRange str \<in> insert (Inl errParse) (range Inr)"
    by (cases "parseContentRange str") (auto dest: parseContentRange_error)
  moreover have "parseContentRange ''bytes 42-1233/1234'' = Inr (42, 1233, 1234)" by code_simp
  moreover have "parseContentRange ''bytes 42-1233/*'' = Inr (42, 1233, - 1)" by code_simp
  moreover have "parseContentRange ''bytes */1234'' = Inr (- 1, - 1, 1234)" by code_simp
  moreover have "parseContentRange ''garbage'' = Inl errParse" by code_simp
  moreover have "parseContentRange ''bytes 42-1233'' = Inl errParse" by code_simp
  moreover have "parseContentRange ''bytes -/-'' = Inl errParse" by code_simp
  ultimately show ?thesis by blast
qed

theorem parseContentRange_examples_witness:
  "parseContentRange ''bytes */*'' \<noteq> Inr (- 1, - 1, - 1) \<and>
   parseContentRange ''bytes */*'' = Inl errParse"
proof -
  have "parseContentRange ''bytes */*'' = Inl errParse" by code_simp
  with parseContentRange_examples [of "''bytes */*''"] show ?thesis by simp
qed

text \<open>
  The length field is taken as \<open>strconv.ParseInt\<close> reads it. For a header \<open>bytes R/N\<close>
  whose length field \<open>N\<close> is not \<open>*\<close>, the length returned is the integer \<open>ParseInt\<close>
  gives for \<open>N\<close>, with no test of its sign; a field \<open>ParseInt\<close> refuses is a parse error.
\<close>

lemma parseContentRange_length_field:
  assumes "Split str (CHR '' '') = [''bytes'', rest]"
    and "Split rest (CHR ''/'') = [rangePart, lengthPart]"
    and "lengthPart \<noteq> ''*''"
  shows "(case parseContentRange str of
            Inr (f, l, n) \<Rightarrow> ParseInt lengthPart = Some n
          | Inl e \<Rightarrow> e = errParse) \<and>
         (ParseInt lengthPart = None \<longrightarrow> parseContentRange str = Inl errParse)"
  using assms
  by (auto simp: parseContentRange_def split: list.splits option.splits if_splits sum.splits)

lemma parseContentRange_length_field_example:
  "ParseInt ''1e3'' = None \<and> parseContentRange ''bytes 0-0/1e3'' = Inl errParse"
proof -
  have a: "Split ''bytes 0-0/1e3'' (CHR '' '') = [''bytes'', ''0-0/1e3'']"
    and b: "Split ''0-0/1e3'' (CHR ''/'') = [''0-0'', ''1e3'']"
    and c: "''1e3'' \<noteq> ''*''"
    by simp_all
  have q: "ParseInt ''1e3'' = None" by code_simp
  from parseContentRange_length_field [OF a b c] q show ?thesis by simp
qed

text \<open>
  C8 fails on the code. The header \<open>bytes 0-0/-5\<close>, whose length field is a negative
  integer, is not refused with a parse error: it parses, and the length returned is
  \<open>- 5\<close>. The grammar in the function's own comment gives the length as \<open>[0-9]+\<close>.
\<close>

theorem negative_length_accepted: "parseContentRange ''bytes 0-0/-5'' = Inr (0, 0, - 5)"
  by code_simp

text \<open>
  What the missing test of the sign lets through. The length \<open>- 1\<close>, written out in the
  header, parses to the value the parser gives for \<open>*\<close>, an unknown length. A probe
  answered with a negative length constructs a reader of that size, and \<open>Do\<close> on it
  panics at the allocation of its buffer.
\<close>

lemma negative_length_is_unknown_length:
  "parseContentRange ''bytes 0-0/-1'' = parseContentRange ''bytes 0-0/*''"
  by code_simp

lemma getMeta_negativeProbe:
  "getMeta \<lparr> Status = ''206 Partial Content'', StatusCode = 206,
             Header = [(''Content-Range'', ''bytes 0-0/-5'')],
             ContentLength = 1, Body = ([7], EOF) \<rparr> =
   Inr \<lparr> start = 0, endv = 0, sizev = - 5, lastModified = [], etag = [],
         contentType = [] \<rparr>"
  by code_simp

lemma negative_length_Size:
  "(case New (Some negativeProbe) (Some getReq) of Inr ra \<Rightarrow> Size ra = - 5 | Inl e \<Rightarrow> False)"
  by (simp add: New_def init_def negativeProbe_def getMeta_negativeProbe Size_def)
     (simp add: getReq_def)

lemma negative_length_Do_panics:
  "Do None (Some negativeProbe) ''http://example/file'' cancelAfter sched = Panic"
proof -
  have "Method (newRequest ''GET'' ''http://example/file'') = ''GET''"
    by (simp add: newRequest_def)
  then show ?thesis
    by (simp add: Do_def NewRequest_url New_def init_def Size_def negativeProbe_def
        getMeta_negativeProbe)
qed


section \<open>The probe and the size it caches\<close>

text \<open>
  C7 fails on the code. A probe answered with 206 and no Content-Range header constructs
  a reader, and its \<open>Size\<close> is \<open>0\<close>, the value \<open>getMeta\<close> starts from, not \<open>- 1\<close>.
\<close>

theorem Size_zero_without_Content_Range:
  "(case New (Some bareProbe) (Some getReq) of Inr ra \<Rightarrow> Size ra = 0 | Inl e \<Rightarrow> False)"
  by (simp add: New_def init_def bareProbe_def getReq_def getMeta_def Size_def Header_Get_def)

text \<open>
  C9. When the probe's metadata has the size \<open>- 1\<close>, \<open>Do\<close> panics at the allocation of its
  buffer; it does not return an error.
\<close>

theorem Do_panics_on_unknown_size:
  assumes "clt (rangeRequest \<lparr> client = clt, req = newRequest ''GET'' url, meta = zeroMeta \<rparr>
                ''bytes=0-0'') = Inr resp"
    and "StatusCode resp = 206"
    and "getMeta resp = Inr m"
    and "sizev m = - 1"
  shows "Do None (Some clt) url cancelAfter sched = Panic"
proof -
  have "Method (newRequest ''GET'' url) = ''GET''" by (simp add: newRequest_def)
  with assms show ?thesis by (simp add: Do_def NewRequest_url New_def init_def Size_def)
qed

theorem Do_panics_on_unknown_size_witness: "Do None (Some starProbe) ''http://example/file'' None id = Panic"
proof -
  let ?resp = "\<lparr> Status = ''206 Partial Content'', StatusCode = 206,
                 Header = [(''Content-Range'', ''bytes 0-0/*'')],
                 ContentLength = 1, Body = ([7], EOF) \<rparr>"
  have m: "getMeta ?resp = Inr \<lparr> start = 0, endv = 0, sizev = - 1, lastModified = [],
                                  etag = [], contentType = [] \<rparr>"
    by code_simp
  show ?thesis
    by (rule Do_panics_on_unknown_size [where resp = "?resp", OF _ _ m])
       (simp_all add: starProbe_def)
qed


section \<open>\<open>ReadAt\<close>, return path by return path\<close>

lemma ReadAt_empty: "slen p = 0 \<Longrightarrow> ReadAt ra mem p off = Return (mem, 0, None, None)"
  by (simp add: ReadAt_def)

lemma ReadAt_past_end:
  "slen p \<noteq> 0 \<Longrightarrow> clamped ra p off \<Longrightarrow> requestLast ra p off < off \<Longrightarrow>
   ReadAt ra mem p off = Return (mem, 0, Some EOF, None)"
  by (simp add: ReadAt_def)

lemma ReadAt_panic:
  "slen p \<noteq> 0 \<Longrightarrow> \<not> (clamped ra p off \<and> requestLast ra p off < off) \<Longrightarrow>
   readBuffer ra p off = None \<Longrightarrow> ReadAt ra mem p off = Panic"
  by (simp add: ReadAt_def)

lemma ReadAt_transport_error:
  "slen p \<noteq> 0 \<Longrightarrow> \<not> (clamped ra p off \<and> requestLast ra p off < off) \<Longrightarrow>
   readBuffer ra p off = Some q \<Longrightarrow>
   r = rangeRequest ra (HttpHeaderRangeFormat off (requestLast ra p off)) \<Longrightarrow>
   client ra r = Inl e \<Longrightarrow>
   ReadAt ra mem p off = Return (mem, 0, Some (HttpRequestError e), Some r)"
  by (simp add: ReadAt_def)

lemma ReadAt_rejected:
  "slen p \<noteq> 0 \<Longrightarrow> \<not> (clamped ra p off \<and> requestLast ra p off < off) \<Longrightarrow>
   readBuffer ra p off = Some q \<Longrightarrow>
   r = rangeRequest ra (HttpHeaderRangeFormat off (requestLast ra p off)) \<Longrightarrow>
   client ra r = Inr resp \<Longrightarrow> checkResponse ra resp off (requestLast ra p off) = Some e \<Longrightarrow>
   ReadAt ra mem p off = Return (mem, 0, Some e, Some r)"
  by (simp add: ReadAt_def)

lemma ReadAt_body:
  "slen p \<noteq> 0 \<Longrightarrow> \<not> (clamped ra p off \<and> requestLast ra p off < off) \<Longrightarrow>
   readBuffer ra p off = Some q \<Longrightarrow>
   r = rangeRequest ra (HttpHeaderRangeFormat off (requestLast ra p off)) \<Longrightarrow>
   client ra r = Inr resp \<Longrightarrow> checkResponse ra resp off (requestLast ra p off) = None \<Longrightarrow>
   ReadAt ra mem p off =
     Return (store mem q (fst (Body resp))
               (fst (readBody resp (slen q) (if clamped ra p off then Some EOF else None))),
             int (fst (readBody resp (slen q) (if clamped ra p off then Some EOF else None))),
             snd (readBody resp (slen q) (if clamped ra p off then Some EOF else None)),
             Some r)"
  by (simp add: ReadAt_def Let_def)

lemma checkResponse_None_iff:
  "checkResponse ra resp f l = None \<longleftrightarrow>
     StatusCode resp = 206 \<and>
     (\<exists>m. getMeta resp = Inr m \<and> sizev (meta ra) = sizev m \<and>
          lastModified (meta ra) = lastModified m \<and> etag (meta ra) = etag m \<and>
          start m = f \<and> endv m \<le> l \<and>
          ContentLength resp = add64 (sub64 (endv m) (start m)) 1)"
  by (auto simp: checkResponse_def split: sum.splits)

lemma ReadAt_sent:
  assumes "ReadAt ra mem p off = Return (mem', n, err, Some r)"
  shows "slen p \<noteq> 0" and "\<not> (clamped ra p off \<and> requestLast ra p off < off)"
    and "\<exists>q. readBuffer ra p off = Some q"
    and "r = rangeRequest ra (HttpHeaderRangeFormat off (requestLast ra p off))"
proof -
  show a: "slen p \<noteq> 0"
  proof
    assume "slen p = 0"
    from ReadAt_empty [OF this, of ra mem off] assms show False by simp
  qed
  show b: "\<not> (clamped ra p off \<and> requestLast ra p off < off)"
  proof
    assume "clamped ra p off \<and> requestLast ra p off < off"
    with ReadAt_past_end [OF a, of ra off mem] assms show False by simp
  qed
  show c: "\<exists>q. readBuffer ra p off = Some q"
  proof (cases "readBuffer ra p off")
    case None
    from ReadAt_panic [OF a b None, of mem] assms show ?thesis by simp
  qed simp
  then obtain q where q: "readBuffer ra p off = Some q" ..
  let ?r = "rangeRequest ra (HttpHeaderRangeFormat off (requestLast ra p off))"
  show "r = ?r"
  proof (cases "client ra ?r")
    case (Inl e)
    from ReadAt_transport_error [OF a b q refl Inl] assms show ?thesis by simp
  next
    case (Inr resp)
    show ?thesis
    proof (cases "checkResponse ra resp off (requestLast ra p off)")
      case None
      from ReadAt_body [OF a b q refl Inr None] assms show ?thesis by simp
    next
      case (Some e)
      from ReadAt_rejected [OF a b q refl Inr Some] assms show ?thesis by simp
    qed
  qed
qed

lemma ReadAt_not_sent:
  assumes "ReadAt ra mem p off = Return (mem', n, err, None)"
  shows "mem' = mem \<and> n = 0 \<and> (slen p = 0 \<or> clamped ra p off \<and> requestLast ra p off < off)"
  using assms
  by (auto simp: ReadAt_def Let_def split: if_splits option.splits sum.splits)

lemmas ReadAt_eval =
  ReadAt_def clamped_def requestLast_def requestLast0_def readBuffer_def metaTen_def add64_def
  sub64_def wrap64_def subslice_def rangeRequest_def cloneRequest_def cloneHeader_def
  Header_Set_def HttpHeaderRangeFormat_def fmtInt_def natDigits.simps getReq_def
  checkResponse_def readBody_def ReadFull_def store_def

lemma getMeta_shortBody:
  "getMeta \<lparr> Status = ''206 Partial Content'', StatusCode = 206,
       Header = [(''Content-Range'', ''bytes 0-3/10''), (''Last-Modified'', ''Mon''),
                 (''ETag'', ''v1'')],
       ContentLength = 4, Body = ([1, 2], EOF) \<rparr> =
   Inr \<lparr> start = 0, endv = 3, sizev = 10, lastModified = ''Mon'', etag = ''v1'',
         contentType = [] \<rparr>"
  by code_simp

lemma getMeta_changedTag:
  "getMeta \<lparr> Status = ''206 Partial Content'', StatusCode = 206,
       Header = [(''Content-Range'', ''bytes 0-3/10''), (''Last-Modified'', ''Mon''),
                 (''ETag'', ''v2'')],
       ContentLength = 4, Body = ([1, 2, 3, 4], EOF) \<rparr> =
   Inr \<lparr> start = 0, endv = 3, sizev = 10, lastModified = ''Mon'', etag = ''v2'',
         contentType = [] \<rparr>"
  by code_simp

lemma ReadAt_changedTag:
  "ReadAt \<lparr> client = changedTag, req = getReq, meta = metaTen \<rparr> [5, 6, 7, 8]
     \<lparr> ptr = 0, slen = 4, scap = 4 \<rparr> 0 =
   Return ([5, 6, 7, 8], 0, Some ErrValidationFailed,
           Some (getReq\<lparr> ReqHeader := [(''Range'', ''bytes=0-3'')] \<rparr>))"
  by (simp add: ReadAt_eval changedTag_def getMeta_changedTag)

lemma ReadAt_shortBody:
  "ReadAt \<lparr> client = shortBody, req = getReq, meta = metaTen \<rparr> [0, 0, 0, 0]
     \<lparr> ptr = 0, slen = 4, scap = 4 \<rparr> 0 =
   Return ([1, 2, 0, 0], 2, Some EOF,
           Some (getReq\<lparr> ReqHeader := [(''Range'', ''bytes=0-3'')] \<rparr>))"
  by (simp add: ReadAt_eval shortBody_def getMeta_shortBody)

lemma ReadAt_refusing:
  "ReadAt \<lparr> client = refusing, req = getReq, meta = metaTen \<rparr> [5, 6, 7, 8]
     \<lparr> ptr = 0, slen = 4, scap = 4 \<rparr> 0 =
   Return ([5, 6, 7, 8], 0, Some (HttpRequestError (Other ''connection refused'')),
           Some (getReq\<lparr> ReqHeader := [(''Range'', ''bytes=0-3'')] \<rparr>))"
  by (simp add: ReadAt_eval refusing_def)

text \<open>
  C10. \<open>ReadAt\<close> leaves every byte of the backing array as it was, and returns the count
  0, on each return path before the body read: an empty buffer, an empty clamped range
  (no request is sent on these two), a transport failure, a status other than 206, a
  metadata parse failure, a metadata validation failure, a range-bounds mismatch and a
  Content-Length mismatch. When the array did change, the response passed every check
  and the change is the store of the bytes the body read delivered.
\<close>

theorem ReadAt_frame:
  assumes "ReadAt ra mem p off = Return (mem', n, err, sent)"
  shows "(slen p = 0 \<longrightarrow> mem' = mem \<and> n = 0 \<and> sent = None) \<and>
         (clamped ra p off \<and> requestLast ra p off < off \<longrightarrow> mem' = mem \<and> n = 0 \<and> sent = None) \<and>
         (\<forall>r. sent = Some r \<longrightarrow>
            r = rangeRequest ra (HttpHeaderRangeFormat off (requestLast ra p off)) \<and>
            (case client ra r of
               Inl e \<Rightarrow> mem' = mem \<and> n = 0
             | Inr resp \<Rightarrow>
                 (StatusCode resp \<noteq> 206 \<longrightarrow> mem' = mem \<and> n = 0) \<and>
                 (case getMeta resp of
                    Inl e \<Rightarrow> mem' = mem \<and> n = 0
                  | Inr m \<Rightarrow>
                      (sizev (meta ra) \<noteq> sizev m \<or> lastModified (meta ra) \<noteq> lastModified m \<or>
                       etag (meta ra) \<noteq> etag m \<longrightarrow> mem' = mem \<and> n = 0) \<and>
                      (start m \<noteq> off \<or> requestLast ra p off < endv m \<longrightarrow> mem' = mem \<and> n = 0) \<and>
                      (ContentLength resp \<noteq> add64 (sub64 (endv m) (start m)) 1 \<longrightarrow>
                         mem' = mem \<and> n = 0)) \<and>
                 (mem' = mem \<or>
                  (\<exists>q. readBuffer ra p off = Some q \<and>
                        checkResponse ra resp off (requestLast ra p off) = None \<and>
                        mem' = store mem q (fst (Body resp)) (nat n))))) \<and>
         (sent = None \<longrightarrow> mem' = mem \<and> n = 0)"
proof (intro conjI impI allI)
  assume "slen p = 0"
  with assms show "mem' = mem" "n = 0" "sent = None" by (simp_all add: ReadAt_empty)
next
  assume c: "clamped ra p off \<and> requestLast ra p off < off"
  show "mem' = mem" "n = 0" "sent = None"
    using assms c by (cases "slen p = 0"; simp add: ReadAt_empty ReadAt_past_end)+
next
  assume "sent = None"
  with assms ReadAt_not_sent show "mem' = mem" "n = 0" by blast+
next
  fix r assume s: "sent = Some r"
  from ReadAt_sent [OF assms [unfolded s]] obtain q where
    a: "slen p \<noteq> 0" and b: "\<not> (clamped ra p off \<and> requestLast ra p off < off)"
    and q: "readBuffer ra p off = Some q"
    and r: "r = rangeRequest ra (HttpHeaderRangeFormat off (requestLast ra p off))"
    by blast
  show "r = rangeRequest ra (HttpHeaderRangeFormat off (requestLast ra p off))" by (rule r)
  show "case client ra r of
          Inl e \<Rightarrow> mem' = mem \<and> n = 0
        | Inr resp \<Rightarrow>
            (StatusCode resp \<noteq> 206 \<longrightarrow> mem' = mem \<and> n = 0) \<and>
            (case getMeta resp of
               Inl e \<Rightarrow> mem' = mem \<and> n = 0
             | Inr m \<Rightarrow>
                 (sizev (meta ra) \<noteq> sizev m \<or> lastModified (meta ra) \<noteq> lastModified m \<or>
                  etag (meta ra) \<noteq> etag m \<longrightarrow> mem' = mem \<and> n = 0) \<and>
                 (start m \<noteq> off \<or> requestLast ra p off < endv m \<longrightarrow> mem' = mem \<and> n = 0) \<and>
                 (ContentLength resp \<noteq> add64 (sub64 (endv m) (start m)) 1 \<longrightarrow>
                    mem' = mem \<and> n = 0)) \<and>
            (mem' = mem \<or>
             (\<exists>q. readBuffer ra p off = Some q \<and>
                   checkResponse ra resp off (requestLast ra p off) = None \<and>
                   mem' = store mem q (fst (Body resp)) (nat n)))"
  proof (cases "client ra r")
    case (Inl e)
    from ReadAt_transport_error [OF a b q r Inl] assms show ?thesis by (simp add: Inl)
  next
    case (Inr resp)
    show ?thesis
    proof (cases "checkResponse ra resp off (requestLast ra p off)")
      case (Some e)
      from ReadAt_rejected [OF a b q r Inr Some] assms have "mem' = mem \<and> n = 0" by simp
      then show ?thesis by (simp add: Inr split: sum.splits)
    next
      case None
      from ReadAt_body [OF a b q r Inr None] assms
      have "mem' = store mem q (fst (Body resp)) (nat n)" by auto
      with None q have "\<exists>q. readBuffer ra p off = Some q \<and>
                   checkResponse ra resp off (requestLast ra p off) = None \<and>
                   mem' = store mem q (fst (Body resp)) (nat n)" by blast
      moreover from None [unfolded checkResponse_None_iff] obtain m where
        "StatusCode resp = 206" "getMeta resp = Inr m" "sizev (meta ra) = sizev m"
        "lastModified (meta ra) = lastModified m" "etag (meta ra) = etag m"
        "start m = off" "endv m \<le> requestLast ra p off"
        "ContentLength resp = add64 (sub64 (endv m) (start m)) 1" by blast
      ultimately show ?thesis by (simp add: Inr)
    qed
  qed
qed

theorem ReadAt_frame_witness:
  "ReadAt \<lparr> client = changedTag, req = getReq, meta = metaTen \<rparr> [5, 6, 7, 8]
     \<lparr> ptr = 0, slen = 4, scap = 4 \<rparr> 0 =
   Return ([5, 6, 7, 8], 0, Some ErrValidationFailed,
           Some (getReq\<lparr> ReqHeader := [(''Range'', ''bytes=0-3'')] \<rparr>)) \<and>
   ReadAt \<lparr> client = refusing, req = getReq, meta = metaTen \<rparr> [5, 6, 7, 8]
     \<lparr> ptr = 0, slen = 4, scap = 4 \<rparr> 0 =
   Return ([5, 6, 7, 8], 0, Some (HttpRequestError (Other ''connection refused'')),
           Some (getReq\<lparr> ReqHeader := [(''Range'', ''bytes=0-3'')] \<rparr>)) \<and>
   ReadAt \<lparr> client = refusing, req = getReq, meta = metaTen \<rparr> [5, 6, 7, 8]
     \<lparr> ptr = 0, slen = 4, scap = 4 \<rparr> 10 = Return ([5, 6, 7, 8], 0, Some EOF, None) \<and>
   ReadAt \<lparr> client = shortBody, req = getReq, meta = metaTen \<rparr> [0, 0, 0, 0]
     \<lparr> ptr = 0, slen = 4, scap = 4 \<rparr> 0 =
   Return (store [0, 0, 0, 0] \<lparr> ptr = 0, slen = 4, scap = 4 \<rparr> [1, 2] 2, 2, Some EOF,
           Some (getReq\<lparr> ReqHeader := [(''Range'', ''bytes=0-3'')] \<rparr>))"
proof -
  have past: "ReadAt \<lparr> client = refusing, req = getReq, meta = metaTen \<rparr> [5, 6, 7, 8]
     \<lparr> ptr = 0, slen = 4, scap = 4 \<rparr> 10 = Return ([5, 6, 7, 8], 0, Some EOF, None)"
    by (simp add: ReadAt_eval)
  from ReadAt_frame [OF ReadAt_changedTag] ReadAt_frame [OF ReadAt_refusing]
    ReadAt_frame [OF past] ReadAt_frame [OF ReadAt_shortBody]
  show ?thesis
    by (simp add: ReadAt_changedTag ReadAt_refusing past ReadAt_shortBody store_def)
qed

text \<open>
  C6, as the code has it. When the response passed the checks and its body ends before
  the buffer (clamped or not) is full, \<open>ReadAt\<close> returns the number of bytes the body
  delivered, and end-of-resource whenever the body ended with \<open>EOF\<close> or
  \<open>ErrUnexpectedEOF\<close>, whatever the Content-Length says; a body read that fails with
  another error is reported as that error.
\<close>

theorem ReadAt_incomplete_body:
  assumes "ReadAt ra mem p off = Return (mem', n, err, Some r)"
    and "client ra r = Inr resp"
    and "checkResponse ra resp off (requestLast ra p off) = None"
    and "readBuffer ra p off = Some q"
    and "length (fst (Body resp)) < slen q"
  shows "n = int (length (fst (Body resp))) \<and>
         err = Some (if snd (Body resp) = EOF \<or> snd (Body resp) = ErrUnexpectedEOF
                     then EOF else snd (Body resp)) \<and>
         mem' = store mem q (fst (Body resp)) (length (fst (Body resp)))"
proof -
  from ReadAt_sent [OF assms(1)] have
    a: "slen p \<noteq> 0" and b: "\<not> (clamped ra p off \<and> requestLast ra p off < off)"
    and r: "r = rangeRequest ra (HttpHeaderRangeFormat off (requestLast ra p off))"
    by blast+
  from ReadAt_body [OF a b assms(4) r assms(2,3)] assms(1,5) show ?thesis
    by (auto simp: readBody_def ReadFull_def Let_def)
qed

theorem ReadAt_incomplete_body_witness:
  "ReadAt \<lparr> client = shortBody, req = getReq, meta = metaTen \<rparr> [0, 0, 0, 0]
     \<lparr> ptr = 0, slen = 4, scap = 4 \<rparr> 0 =
   Return ([1, 2, 0, 0], 2, Some EOF,
           Some (getReq\<lparr> ReqHeader := [(''Range'', ''bytes=0-3'')] \<rparr>))"
proof -
  let ?ra = "\<lparr> client = shortBody, req = getReq, meta = metaTen \<rparr>"
  let ?p = "\<lparr> ptr = 0, slen = 4, scap = 4 \<rparr>"
  let ?resp = "\<lparr> Status = ''206 Partial Content'', StatusCode = 206,
       Header = [(''Content-Range'', ''bytes 0-3/10''), (''Last-Modified'', ''Mon''),
                 (''ETag'', ''v1'')],
       ContentLength = 4, Body = ([1, 2], EOF) \<rparr>"
  have c: "client ?ra (getReq\<lparr> ReqHeader := [(''Range'', ''bytes=0-3'')] \<rparr>) = Inr ?resp"
    by (simp add: shortBody_def)
  have k: "checkResponse ?ra ?resp 0 (requestLast ?ra ?p 0) = None"
    by (simp add: ReadAt_eval getMeta_shortBody)
  have b: "readBuffer ?ra ?p 0 = Some ?p"
    by (simp add: ReadAt_eval)
  have l: "length (fst (Body ?resp)) < slen ?p" by simp
  from ReadAt_incomplete_body [OF ReadAt_shortBody c k b l] show ?thesis
    by (simp add: ReadAt_shortBody)
qed

text \<open>
  The claim as the specification words it fails: a body of two bytes under a
  Content-Length of four is reported as end-of-resource, not as a transport error.
\<close>

theorem incomplete_body_reported_as_EOF:
  "ReadAt \<lparr> client = shortBody, req = getReq, meta = metaTen \<rparr> [0, 0, 0, 0]
     \<lparr> ptr = 0, slen = 4, scap = 4 \<rparr> 0 =
   Return ([1, 2, 0, 0], 2, Some EOF,
           Some (getReq\<lparr> ReqHeader := [(''Range'', ''bytes=0-3'')] \<rparr>)) \<and>
   shortBody (getReq\<lparr> ReqHeader := [(''Range'', ''bytes=0-3'')] \<rparr>) =
     Inr \<lparr> Status = ''206 Partial Content'', StatusCode = 206,
           Header = [(''Content-Range'', ''bytes 0-3/10''), (''Last-Modified'', ''Mon''),
                     (''ETag'', ''v1'')],
           ContentLength = 4, Body = ([1, 2], EOF) \<rparr>"
  by (simp add: ReadAt_eval shortBody_def getMeta_shortBody)

text \<open>
  C3 fails on the code where the end of the requested range overflows. With a cached
  size of 10, a buffer of two bytes and the offset \<open>2 ^ 63 - 1\<close>, \<open>reqLast\<close> wraps to
  \<open>- 2 ^ 63\<close>, the range is not clamped, and a request is sent; the read returns what
  the transport answers, not end-of-resource.
\<close>

theorem ReadAt_offset_overflow:
  "ReadAt \<lparr> client = refusing, req = getReq, meta = metaTen \<rparr> [0, 0]
     \<lparr> ptr = 0, slen = 2, scap = 2 \<rparr> 9223372036854775807 =
   Return ([0, 0], 0, Some (HttpRequestError (Other ''connection refused'')),
           Some (getReq\<lparr> ReqHeader :=
                   [(''Range'', ''bytes=9223372036854775807--9223372036854775808'')] \<rparr>))"
  by (simp add: ReadAt_eval refusing_def)


section \<open>Parsed sizes are \<open>int64\<close> values; the probe\<close>

lemma foldl_digits_nonneg:
  "list_all isDigit ds \<Longrightarrow> 0 \<le> acc \<Longrightarrow>
   0 \<le> foldl (\<lambda>acc c. acc * 10 + (int (of_char c) - 48)) acc ds"
proof (induction ds arbitrary: acc)
  case Nil
  then show ?case by simp
next
  case (Cons c cs)
  from Cons.prems have "48 \<le> (of_char c :: nat)" by (simp add: isDigit_def)
  then have "0 \<le> acc * 10 + (int (of_char c) - 48)" using Cons.prems(2) by simp
  with Cons show ?case by simp
qed

lemma ParseInt_int64:
  assumes "ParseInt s = Some n"
  shows "is_int64 n"
proof -
  from assms obtain c cs where s: "s = c # cs" by (cases s) (auto simp: ParseInt_def)
  define ds where "ds = (if c = CHR ''+'' then cs else if c = CHR ''-'' then cs else s)"
  from assms have dd: "list_all isDigit ds"
    by (auto simp: ParseInt_def s ds_def Let_def split: if_splits)
  have nn: "0 \<le> digitsValue ds"
    unfolding digitsValue_def using dd by (rule foldl_digits_nonneg) simp
  from assms have "n = digitsValue ds \<and> digitsValue ds < 2 ^ 63 \<or>
                   n = - digitsValue ds \<and> digitsValue ds \<le> 2 ^ 63"
    by (auto simp: ParseInt_def s ds_def Let_def split: if_splits)
  with nn show ?thesis by (auto simp: is_int64_def)
qed

lemma parseContentRange_int64:
  "parseContentRange s = Inr (f, l, n) \<Longrightarrow> is_int64 n"
  by (auto simp: parseContentRange_def is_int64_def
           split: list.splits option.splits if_splits dest: ParseInt_int64)

lemma getMeta_206_int64:
  "StatusCode resp = 206 \<Longrightarrow> getMeta resp = Inr m \<Longrightarrow> is_int64 (sizev m)"
  by (auto simp: getMeta_def Let_def is_int64_def
           split: if_splits sum.splits dest: parseContentRange_int64)

lemma New_Inr:
  assumes "New (Some clt) (Some rq) = Inr ra"
  shows "Method rq = ''GET''" and "client ra = clt" and "req ra = rq"
    and "\<exists>resp. clt (rangeRequest \<lparr> client = clt, req = rq, meta = zeroMeta \<rparr> ''bytes=0-0'') = Inr resp \<and>
           StatusCode resp = 206 \<and> getMeta resp = Inr (meta ra)"
    and "is_int64 (Size ra)"
proof -
  from assms show g: "Method rq = ''GET''" by (auto simp: New_def split: if_splits)
  from assms g have i: "init \<lparr> client = clt, req = rq, meta = zeroMeta \<rparr> = Inr ra"
    by (simp add: New_def)
  then show "client ra = clt" "req ra = rq"
    by (auto simp: init_def split: sum.splits if_splits)
  from i show e: "\<exists>resp. clt (rangeRequest \<lparr> client = clt, req = rq, meta = zeroMeta \<rparr> ''bytes=0-0'') = Inr resp \<and>
           StatusCode resp = 206 \<and> getMeta resp = Inr (meta ra)"
    by (auto simp: init_def split: sum.splits if_splits)
  then show "is_int64 (Size ra)" by (auto simp: Size_def dest: getMeta_206_int64)
qed

section \<open>Chunk reads inside the resource, and the first error of a download\<close>

lemma ReadAt_in_range:
  assumes "0 \<le> off" and "slen p \<noteq> 0" and "off + int (slen p) \<le> sizev (meta ra)"
    and "sizev (meta ra) < 2 ^ 63"
  shows "\<not> clamped ra p off" and "requestLast ra p off = off + int (slen p) - 1"
    and "readBuffer ra p off = Some p"
proof -
  have a: "add64 off (int (slen p)) = off + int (slen p)"
    unfolding add64_def using assms by (intro wrap64_id) auto
  have r: "requestLast0 p off = off + int (slen p) - 1"
    unfolding requestLast0_def a sub64_def using assms by (intro wrap64_id) auto
  have s: "sub64 (sizev (meta ra)) 1 = sizev (meta ra) - 1"
    unfolding sub64_def using assms by (intro wrap64_id) auto
  show c: "\<not> clamped ra p off" using assms(3) by (simp add: clamped_def r s)
  then show "requestLast ra p off = off + int (slen p) - 1" by (simp add: requestLast_def r)
  from c show "readBuffer ra p off = Some p" by (simp add: readBuffer_def)
qed

lemma ReadAt_in_range_no_panic:
  assumes "0 \<le> off" and "off + int (slen p) \<le> sizev (meta ra)" and "sizev (meta ra) < 2 ^ 63"
  shows "ReadAt ra mem p off \<noteq> Panic"
proof (cases "slen p = 0")
  case True
  then show ?thesis by (simp add: ReadAt_def)
next
  case False
  from ReadAt_in_range [OF assms(1) False assms(2,3)] False show ?thesis
    by (simp add: ReadAt_def Let_def split: sum.split option.split)
qed

lemma ReadAt_outcome_any_array:
  "(case ReadAt ra mem p off of Panic \<Rightarrow> Panic | Return (m, n, e, s) \<Rightarrow> Return (n, e, s)) =
   (case ReadAt ra mem2 p off of Panic \<Rightarrow> Panic | Return (m, n, e, s) \<Rightarrow> Return (n, e, s))"
  by (simp add: ReadAt_def Let_def split: option.split sum.split)

lemma readChunk_error:
  "(case readChunk ra mem t of Panic \<Rightarrow> Panic | Return (m, e) \<Rightarrow> Return e) = chunkError ra t"
proof -
  have "(case readChunk ra mem t of Panic \<Rightarrow> Panic | Return (m, e) \<Rightarrow> Return e) =
        (case readChunk ra mem2 t of Panic \<Rightarrow> Panic | Return (m, e) \<Rightarrow> Return e)" for mem2
    using ReadAt_outcome_any_array [of ra mem "Content t" "Offset t" mem2]
    by (auto simp: readChunk_def Clone_def split: go.splits option.splits)
  then show ?thesis unfolding chunkError_def .
qed

lemma readChunk_cases:
  shows "chunkError ra t = Return e \<Longrightarrow> \<exists>m. readChunk ra mem t = Return (m, e)"
    and "chunkError ra t \<noteq> Panic \<Longrightarrow> readChunk ra mem t \<noteq> Panic"
  using readChunk_error [of ra mem t] by (auto split: go.splits)

lemma runTasks_started:
  "runTasks ra cancelAfter mem ts = runTasks ra None mem (started cancelAfter ts)"
proof (induction ts arbitrary: cancelAfter mem)
  case Nil
  then show ?case by (simp add: started_def split: option.split)
next
  case (Cons t ts)
  show ?case
  proof (cases cancelAfter)
    case None
    then show ?thesis by (simp add: started_def)
  next
    case (Some k)
    show ?thesis
    proof (cases k)
      case 0
      with Some show ?thesis by (simp add: started_def)
    next
      case (Suc j)
      have "runTasks ra (Some j) m ts = runTasks ra None m (take j ts)" for m
        using Cons.IH [of "Some j" m] by (simp add: started_def)
      with Some Suc show ?thesis
        by (simp add: started_def split: go.split option.split)
    qed
  qed
qed

lemma runTasks_first_error:
  "\<forall>u \<in> set pre. chunkError ra u = Return None \<Longrightarrow> chunkError ra t = Return (Some e) \<Longrightarrow>
   runTasks ra None mem (pre @ t # post) = Return (Inl e)"
proof (induction pre arbitrary: mem)
  case Nil
  from readChunk_cases(1) [OF Nil(2), of mem] show ?case by auto
next
  case (Cons u pre)
  from Cons.prems(1) have "chunkError ra u = Return None" by simp
  from readChunk_cases(1) [OF this, of mem] obtain m where "readChunk ra mem u = Return (m, None)" ..
  moreover have "runTasks ra None m (pre @ t # post) = Return (Inl e)"
    using Cons.prems by (intro Cons.IH) auto
  ultimately show ?case by simp
qed

lemma planned_task_bounds:
  assumes "0 \<le> T" and "t \<in> set (map (\<lambda>os. \<lparr> Offset = fst os, Content = window buf (fst os) (snd os) \<rparr>) (chunkPlan T))"
  shows "0 \<le> Offset t" and "0 < slen (Content t)" and "Offset t + int (slen (Content t)) \<le> T"
    and "ptr (Content t) = ptr buf + nat (Offset t)"
proof -
  from assms(2) obtain i where i: "i < length (chunkPlan T)"
    and t: "t = \<lparr> Offset = fst (chunkPlan T ! i), Content = window buf (fst (chunkPlan T ! i)) (snd (chunkPlan T ! i)) \<rparr>"
    by (auto simp: in_set_conv_nth)
  note b = chunkPlan_size_bounds [OF assms(1) i]
  show "0 \<le> Offset t" using b by (simp add: t)
  show "0 < slen (Content t)" using b by (simp add: t window_def)
  show "Offset t + int (slen (Content t)) \<le> T" using b by (simp add: t window_def)
  show "ptr (Content t) = ptr buf + nat (Offset t)" by (simp add: t window_def)
qed

lemma makeMemoryTask_negative:
  assumes "T < 0" and "makeMemoryTask T buf = Return tasks"
  shows "tasks = []"
proof -
  have q: "quo64 T chunkSize \<le> 0" using assms(1) by (simp add: quo64_def chunkSize_def)
  show ?thesis
  proof (cases "quo64 T chunkSize < 0")
    case True
    with assms(2) show ?thesis by (simp add: makeMemoryTask_def)
  next
    case False
    with q have z: "quo64 T chunkSize = 0" by simp
    have "memoryTaskLoop 0 0 0 buf [] = Return (0, [])"
      by (subst memoryTaskLoop.simps) simp
    with assms show ?thesis by (simp add: makeMemoryTask_def z)
  qed
qed

lemma Do_first_error:
  assumes "New (Some clt) (Some (newRequest ''GET'' url)) = Inr preRead"
    and "makeMemoryTask (Size preRead)
           \<lparr> ptr = 0, slen = nat (Size preRead), scap = nat (Size preRead) \<rparr> = Return tasks"
    and "mset (sched tasks) = mset tasks"
    and "t \<in> set (started cancelAfter (sched tasks))"
    and "chunkError preRead t = Return (Some ErrValidationFailed)"
  shows "\<exists>pre t' post e.
           started cancelAfter (sched tasks) = pre @ t' # post \<and>
           (\<forall>u \<in> set pre. chunkError preRead u = Return None) \<and>
           chunkError preRead t' = Return (Some e) \<and>
           Do None (Some clt) url cancelAfter sched = Return (Inl e)"
proof -
  let ?T = "Size preRead"
  let ?buf = "\<lparr> ptr = 0, slen = nat ?T, scap = nat ?T \<rparr>"
  let ?run = "started cancelAfter (sched tasks)"
  have s: "set (sched tasks) = set tasks" using assms(3) by (rule mset_eq_setD)
  have sub: "set ?run \<subseteq> set tasks"
    using s set_take_subset [of _ "sched tasks"] by (auto simp: started_def split: option.splits)
  have T0: "0 \<le> ?T"
  proof (rule ccontr)
    assume "\<not> 0 \<le> ?T"
    then have "tasks = []" using makeMemoryTask_negative [OF _ assms(2)] by simp
    with assms(4) sub show False by auto
  qed
  from New_Inr(5) [OF assms(1)] have T63: "?T < 2 ^ 63" by (simp add: is_int64_def)
  have plan: "tasks = map (\<lambda>os. \<lparr> Offset = fst os, Content = window ?buf (fst os) (snd os) \<rparr>)
                        (chunkPlan ?T)"
    using makeMemoryTask_plan [OF T0 T63, of ?buf] assms(2) T0 by simp
  have nopanic: "chunkError preRead u \<noteq> Panic" if "u \<in> set tasks" for u
  proof -
    from that planned_task_bounds [OF T0, of u ?buf]
    have "0 \<le> Offset u" "Offset u + int (slen (Content u)) \<le> ?T" unfolding plan by blast+
    then have "ReadAt preRead [] (Content u) (Offset u) \<noteq> Panic"
      using T63 by (intro ReadAt_in_range_no_panic) (simp_all add: Size_def)
    then show ?thesis
      by (auto simp: chunkError_def readChunk_def Clone_def split: go.splits option.splits)
  qed
  have "chunkError preRead t \<noteq> Return None" using assms(5) by simp
  with assms(4) have "\<exists>u \<in> set ?run. chunkError preRead u \<noteq> Return None"
    by blast
  from split_list_first_prop [OF this] obtain pre t' post where
    sp: "?run = pre @ t' # post" and f: "chunkError preRead t' \<noteq> Return None"
    and p: "\<forall>u \<in> set pre. \<not> chunkError preRead u \<noteq> Return None" by blast
  from sp sub have "t' \<in> set tasks" by auto
  from nopanic [OF this] f obtain e where e: "chunkError preRead t' = Return (Some e)"
    by (cases "chunkError preRead t'") auto
  from p have p': "\<forall>u \<in> set pre. chunkError preRead u = Return None" by simp
  have "Do None (Some clt) url cancelAfter sched =
        runTasks preRead cancelAfter (replicate (nat ?T) 0) (sched tasks)"
    using assms(1,2) T0 by (simp add: Do_def NewRequest_url Let_def)
  also have "\<dots> = runTasks preRead None (replicate (nat ?T) 0) ?run"
    by (rule runTasks_started)
  also have "\<dots> = Return (Inl e)" unfolding sp by (rule runTasks_first_error [OF p' e])
  finally show ?thesis using sp p' e by blast
qed

lemma ReadAt_validation_failed:
  assumes "ReadAt ra mem p off = Return (mem', n, err, Some r)"
    and "client ra r = Inr resp"
    and "StatusCode resp = 206"
    and "getMeta resp = Inr m"
    and "sizev (meta ra) \<noteq> sizev m \<or> lastModified (meta ra) \<noteq> lastModified m \<or>
         etag (meta ra) \<noteq> etag m"
  shows "mem' = mem \<and> n = 0 \<and> err = Some ErrValidationFailed"
proof -
  from ReadAt_sent [OF assms(1)] obtain q where
    a: "slen p \<noteq> 0" and b: "\<not> (clamped ra p off \<and> requestLast ra p off < off)"
    and q: "readBuffer ra p off = Some q"
    and r: "r = rangeRequest ra (HttpHeaderRangeFormat off (requestLast ra p off))"
    by blast
  have "checkResponse ra resp off (requestLast ra p off) = Some ErrValidationFailed"
    using assms(3-5) by (auto simp: checkResponse_def)
  from ReadAt_rejected [OF a b q r assms(2) this] assms(1) show ?thesis by simp
qed



section \<open>A download with two failing chunk reads\<close>

lemma getMeta_flaky_probe:
  "getMeta \<lparr> Status = ''206 Partial Content'', StatusCode = 206,
              Header = [(''Content-Range'', ''bytes 0-0/65538''), (''ETag'', ''v1'')],
              ContentLength = 1, Body = ([0], EOF) \<rparr> =
   Inr \<lparr> start = 0, endv = 0, sizev = 65538, lastModified = [], etag = ''v1'', contentType = [] \<rparr>"
  by code_simp

lemma getMeta_flaky_second:
  "getMeta \<lparr> Status = ''206 Partial Content'', StatusCode = 206,
              Header = [(''Content-Range'', ''bytes 65536-65537/65538''), (''ETag'', ''v2'')],
              ContentLength = 2, Body = ([9, 9], EOF) \<rparr> =
   Inr \<lparr> start = 65536, endv = 65537, sizev = 65538, lastModified = [], etag = ''v2'', contentType = [] \<rparr>"
  by code_simp

lemma New_flaky: "New (Some flaky) (Some getReq) = Inr flakyReader"
  by (simp add: New_def init_def flaky_def getReq_def rangeRequest_def cloneRequest_def
      cloneHeader_def Header_Set_def Header_Get_def getMeta_flaky_probe flakyReader_def)

lemma chunkPlan_65538: "chunkPlan 65538 = [(0, 65536), (65536, 2)]"
  by (simp add: chunkPlan_def chunkSize_def upt_rec)

lemma makeMemoryTask_flaky:
  "makeMemoryTask 65538 \<lparr> ptr = 0, slen = 65538, scap = 65538 \<rparr> = Return flakyTasks"
  using makeMemoryTask_plan [of 65538 "\<lparr> ptr = 0, slen = 65538, scap = 65538 \<rparr>"]
  by (simp add: chunkPlan_65538 window_def flakyTasks_def)

lemma ReadAt_flaky_first:
  "ReadAt flakyReader mem \<lparr> ptr = 0, slen = 65536, scap = 65538 \<rparr> 0 =
     Return (mem, 0, Some (HttpRequestError (Other ''connection reset'')),
             Some (getReq\<lparr> ReqHeader := [(''Range'', ''bytes=0-65535'')] \<rparr>))"
  by (simp add: ReadAt_eval flakyReader_def flaky_def Header_Get_def)

lemma ReadAt_flaky_second:
  "ReadAt flakyReader mem \<lparr> ptr = 65536, slen = 2, scap = 2 \<rparr> 65536 =
     Return (mem, 0, Some ErrValidationFailed,
             Some (getReq\<lparr> ReqHeader := [(''Range'', ''bytes=65536-65537'')] \<rparr>))"
  by (simp add: ReadAt_eval flakyReader_def flaky_def Header_Get_def getMeta_flaky_second)

lemma chunkError_flaky:
  "chunkError flakyReader (flakyTasks ! 0) = Return (Some (HttpRequestError (Other ''connection reset'')))"
  "chunkError flakyReader (flakyTasks ! 1) = Return (Some ErrValidationFailed)"
  by (simp_all add: chunkError_def readChunk_def Clone_def flakyTasks_def ReadAt_flaky_first ReadAt_flaky_second)

lemma runTasks_flaky:
  "runTasks flakyReader None mem flakyTasks = Return (Inl (HttpRequestError (Other ''connection reset'')))"
  "runTasks flakyReader None mem (rev flakyTasks) = Return (Inl ErrValidationFailed)"
  by (simp_all add: flakyTasks_def readChunk_def Clone_def ReadAt_flaky_first ReadAt_flaky_second)

lemma Do_flaky_id: "Do None (Some flaky) ''http://example/file'' None id = Return (Inl (HttpRequestError (Other ''connection reset'')))"
proof -
  have s: "Size flakyReader = 65538" by (simp add: Size_def flakyReader_def)
  show ?thesis
    by (simp add: Do_def NewRequest_example New_flaky s Let_def makeMemoryTask_flaky
        runTasks_flaky)
qed

lemma Do_flaky_rev: "Do None (Some flaky) ''http://example/file'' None rev = Return (Inl ErrValidationFailed)"
proof -
  have s: "Size flakyReader = 65538" by (simp add: Size_def flakyReader_def)
  show ?thesis
    by (simp add: Do_def NewRequest_example New_flaky s Let_def makeMemoryTask_flaky
        runTasks_flaky)
qed

text \<open>
  C4, as the code has it. A \<open>ReadAt\<close> call whose response (status 206, metadata parsed)
  differs from the cached snapshot in size, Last-Modified or ETag returns 0 bytes, the
  validation error and an untouched buffer. A download in which the read of a planned
  chunk is started and hits this condition never returns a buffer: whatever the order in
  which the chunk reads complete, it returns the error of the first chunk read to fail
  in that order, and a nil buffer. That error is the validation error when the read
  that hit the condition is the first to fail.
\<close>

theorem validation_failure_fails_download:
  "(ReadAt ra mem p off = Return (mem', n, err, Some r) \<and> client ra r = Inr resp \<and>
    StatusCode resp = 206 \<and> getMeta resp = Inr m \<and>
    (sizev (meta ra) \<noteq> sizev m \<or> lastModified (meta ra) \<noteq> lastModified m \<or>
     etag (meta ra) \<noteq> etag m) \<longrightarrow>
    mem' = mem \<and> n = 0 \<and> err = Some ErrValidationFailed) \<and>
   (New (Some clt) (Some (newRequest ''GET'' url)) = Inr preRead \<and>
    makeMemoryTask (Size preRead)
      \<lparr> ptr = 0, slen = nat (Size preRead), scap = nat (Size preRead) \<rparr> = Return tasks \<and>
    mset (sched tasks) = mset tasks \<and> t \<in> set (started cancelAfter (sched tasks)) \<and>
    chunkError preRead t = Return (Some ErrValidationFailed) \<longrightarrow>
    (\<exists>pre t' post e.
       started cancelAfter (sched tasks) = pre @ t' # post \<and>
       (\<forall>u \<in> set pre. chunkError preRead u = Return None) \<and>
       chunkError preRead t' = Return (Some e) \<and>
       Do None (Some clt) url cancelAfter sched = Return (Inl e)))"
  using ReadAt_validation_failed [of ra mem p off mem' n err r resp m]
    Do_first_error [where clt = clt and url = url and preRead = preRead and tasks = tasks
      and sched = sched and t = t and cancelAfter = cancelAfter]
  by blast

theorem validation_failure_fails_download_witness:
  "ReadAt \<lparr> client = changedTag, req = getReq, meta = metaTen \<rparr> [5, 6, 7, 8]
     \<lparr> ptr = 0, slen = 4, scap = 4 \<rparr> 0 =
   Return ([5, 6, 7, 8], 0, Some ErrValidationFailed,
           Some (getReq\<lparr> ReqHeader := [(''Range'', ''bytes=0-3'')] \<rparr>)) \<and>
   New (Some flaky) (Some getReq) = Inr flakyReader \<and>
   makeMemoryTask (Size flakyReader)
      \<lparr> ptr = 0, slen = nat (Size flakyReader), scap = nat (Size flakyReader) \<rparr> = Return flakyTasks \<and>
   chunkError flakyReader (flakyTasks ! 1) = Return (Some ErrValidationFailed) \<and>
   Do None (Some flaky) ''http://example/file'' None rev = Return (Inl ErrValidationFailed)"
proof -
  let ?ra = "\<lparr> client = changedTag, req = getReq, meta = metaTen \<rparr>"
  let ?resp = "\<lparr> Status = ''206 Partial Content'', StatusCode = 206,
       Header = [(''Content-Range'', ''bytes 0-3/10''), (''Last-Modified'', ''Mon''),
                 (''ETag'', ''v2'')],
       ContentLength = 4, Body = ([1, 2, 3, 4], EOF) \<rparr>"
  have s: "Size flakyReader = 65538" by (simp add: Size_def flakyReader_def)
  have c: "client ?ra (getReq\<lparr> ReqHeader := [(''Range'', ''bytes=0-3'')] \<rparr>) = Inr ?resp"
    by (simp add: changedTag_def)
  have d: "etag (meta ?ra) \<noteq> etag \<lparr> start = 0, endv = 3, sizev = 10, lastModified = ''Mon'', etag = ''v2'',
         contentType = [] \<rparr>" by (simp add: metaTen_def)
  have mk: "makeMemoryTask (Size flakyReader)
      \<lparr> ptr = 0, slen = nat (Size flakyReader), scap = nat (Size flakyReader) \<rparr> = Return flakyTasks"
    by (simp add: s makeMemoryTask_flaky)
  have ms: "mset (rev flakyTasks) = mset flakyTasks" by simp
  have mem: "flakyTasks ! 1 \<in> set (started None (rev flakyTasks))"
    by (simp add: flakyTasks_def started_def)
  note inst = validation_failure_fails_download
    [where ra = ?ra and mem = "[5, 6, 7, 8]" and p = "\<lparr> ptr = 0, slen = 4, scap = 4 \<rparr>"
       and off = 0 and mem' = "[5, 6, 7, 8]" and n = 0 and err = "Some ErrValidationFailed"
       and r = "getReq\<lparr> ReqHeader := [(''Range'', ''bytes=0-3'')] \<rparr>" and resp = ?resp
       and m = "\<lparr> start = 0, endv = 3, sizev = 10, lastModified = ''Mon'', etag = ''v2'',
                  contentType = [] \<rparr>"
       and clt = flaky and url = "''http://example/file''" and preRead = flakyReader
       and tasks = flakyTasks and sched = rev and cancelAfter = None
       and t = "flakyTasks ! 1"]
  have nr: "newRequest ''GET'' ''http://example/file'' = getReq"
    by (simp add: newRequest_def getReq_def)
  from inst [unfolded nr] ReadAt_changedTag c d getMeta_changedTag New_flaky mk ms mem
    chunkError_flaky(2) Do_flaky_rev
  show ?thesis by simp
qed

text \<open>
  The claim as the specification words it fails: the read of the second chunk hits the
  validation condition, the read of the first chunk fails in the transport and completes
  first, and the download returns the transport's error.
\<close>

theorem other_error_wins:
  "New (Some flaky) (Some getReq) = Inr flakyReader \<and>
   makeMemoryTask (Size flakyReader)
      \<lparr> ptr = 0, slen = nat (Size flakyReader), scap = nat (Size flakyReader) \<rparr> = Return flakyTasks \<and>
   ReadAt flakyReader (replicate 65538 0) (Content (flakyTasks ! 1)) (Offset (flakyTasks ! 1)) =
     Return (replicate 65538 0, 0, Some ErrValidationFailed,
             Some (getReq\<lparr> ReqHeader := [(''Range'', ''bytes=65536-65537'')] \<rparr>)) \<and>
   Do None (Some flaky) ''http://example/file'' None id = Return (Inl (HttpRequestError (Other ''connection reset'')))"
proof -
  have s: "Size flakyReader = 65538" by (simp add: Size_def flakyReader_def)
  have t: "flakyTasks ! 1 = \<lparr> Offset = 65536, Content = \<lparr> ptr = 65536, slen = 2, scap = 2 \<rparr> \<rparr>"
    by (simp add: flakyTasks_def)
  show ?thesis
    unfolding t by (simp add: New_flaky s makeMemoryTask_flaky ReadAt_flaky_second Do_flaky_id)
qed



section \<open>A download from a transport that honours Range requests\<close>

lemma rangeRequest_req:
  "req ra = rq \<Longrightarrow> rangeRequest ra s = rangeRequest \<lparr> client = c, req = rq, meta = m \<rparr> s"
  by (simp add: rangeRequest_def cloneRequest_def)

lemma honorsRangeD:
  assumes "honorsRange clt rq content lm tag" and "0 \<le> a" and "a \<le> b"
    and "b < int (length content)" and "req ra = rq"
  shows "\<exists>resp. clt (rangeRequest ra (HttpHeaderRangeFormat a b)) = Inr resp \<and>
           StatusCode resp = 206 \<and>
           getMeta resp =
             Inr \<lparr> start = a, endv = b, sizev = int (length content), lastModified = lm,
                   etag = tag, contentType = Header_Get (Header resp) ''Content-Type'' \<rparr> \<and>
           ContentLength resp = b - a + 1 \<and>
           Body resp = (take (nat (b - a + 1)) (drop (nat a) content), EOF)"
proof -
  let ?r = "rangeRequest \<lparr> client = clt, req = rq, meta = zeroMeta \<rparr> (HttpHeaderRangeFormat a b)"
  have r: "rangeRequest ra (HttpHeaderRangeFormat a b) = ?r"
    using assms(5) by (rule rangeRequest_req)
  from assms(1-4) have "case clt ?r of
           Inl e \<Rightarrow> False
         | Inr resp \<Rightarrow>
             StatusCode resp = 206 \<and>
             getMeta resp =
               Inr \<lparr> start = a, endv = b, sizev = int (length content), lastModified = lm,
                     etag = tag, contentType = Header_Get (Header resp) ''Content-Type'' \<rparr> \<and>
             ContentLength resp = b - a + 1 \<and>
             Body resp = (take (nat (b - a + 1)) (drop (nat a) content), EOF)"
    unfolding honorsRange_def by blast
  then show ?thesis unfolding r by (cases "clt ?r") auto
qed

lemma format_probe: "HttpHeaderRangeFormat 0 0 = ''bytes=0-0''"
  by (simp add: HttpHeaderRangeFormat_def fmtInt_def natDigits.simps)

lemma honoured_size_int64:
  assumes "honorsRange clt rq content lm tag" and "content \<noteq> []"
  shows "int (length content) < 2 ^ 63"
proof -
  from assms(2) have "0 < int (length content)" by simp
  from honorsRangeD [OF assms(1) _ _ this, of 0 "\<lparr> client = clt, req = rq, meta = zeroMeta \<rparr>"]
  obtain resp where "StatusCode resp = 206" and
    "getMeta resp = Inr \<lparr> start = 0, endv = 0, sizev = int (length content), lastModified = lm,
                   etag = tag, contentType = Header_Get (Header resp) ''Content-Type'' \<rparr>"
    by auto
  from getMeta_206_int64 [OF this] show ?thesis by (simp add: is_int64_def)
qed

lemma New_honoured:
  assumes "honorsRange clt rq content lm tag" and "content \<noteq> []" and "Method rq = ''GET''"
  shows "\<exists>ct. New (Some clt) (Some rq) =
           Inr \<lparr> client = clt, req = rq,
                 meta = \<lparr> start = 0, endv = 0, sizev = int (length content), lastModified = lm,
                          etag = tag, contentType = ct \<rparr> \<rparr>"
proof -
  from assms(2) have "0 < int (length content)" by simp
  from honorsRangeD [OF assms(1) _ _ this, of 0 "\<lparr> client = clt, req = rq, meta = zeroMeta \<rparr>"]
  obtain resp where "clt (rangeRequest \<lparr> client = clt, req = rq, meta = zeroMeta \<rparr> ''bytes=0-0'') = Inr resp"
    "StatusCode resp = 206"
    "getMeta resp = Inr \<lparr> start = 0, endv = 0, sizev = int (length content), lastModified = lm,
                   etag = tag, contentType = Header_Get (Header resp) ''Content-Type'' \<rparr>"
    by (auto simp: format_probe)
  then show ?thesis using assms(3) by (simp add: New_def init_def)
qed

lemma store_length:
  "ptr p + k \<le> length mem \<Longrightarrow> length bs = k \<Longrightarrow> length (store mem p bs k) = length mem"
  by (simp add: store_def)

lemma store_nth:
  "ptr p + k \<le> length mem \<Longrightarrow> length bs = k \<Longrightarrow> i < length mem \<Longrightarrow>
   store mem p bs k ! i = (if ptr p \<le> i \<and> i < ptr p + k then bs ! (i - ptr p) else mem ! i)"
  by (auto simp: store_def nth_append min_def)

lemma ReadAt_honoured:
  assumes "honorsRange clt rq content lm tag"
    and "client ra = clt" and "req ra = rq" and "sizev (meta ra) = int (length content)"
    and "lastModified (meta ra) = lm" and "etag (meta ra) = tag"
    and "int (length content) < 2 ^ 63"
    and "0 \<le> off" and "slen p \<noteq> 0" and "off + int (slen p) \<le> int (length content)"
  shows "\<exists>r. ReadAt ra mem p off =
           Return (store mem p (take (slen p) (drop (nat off) content)) (slen p),
                   int (slen p), None, Some r)"
proof -
  let ?b = "off + int (slen p) - 1"
  from assms(4,7,10) have sz: "off + int (slen p) \<le> sizev (meta ra)" "sizev (meta ra) < 2 ^ 63"
    by simp_all
  note ir = ReadAt_in_range [OF assms(8,9) sz]
  have ab: "off \<le> ?b" "?b < int (length content)" using assms(9,10) by auto
  from honorsRangeD [OF assms(1,8) ab assms(3)] obtain resp where
    c: "clt (rangeRequest ra (HttpHeaderRangeFormat off ?b)) = Inr resp"
    and st: "StatusCode resp = 206"
    and m: "getMeta resp = Inr \<lparr> start = off, endv = ?b, sizev = int (length content),
               lastModified = lm, etag = tag,
               contentType = Header_Get (Header resp) ''Content-Type'' \<rparr>"
    and cl: "ContentLength resp = ?b - off + 1"
    and bd: "Body resp = (take (nat (?b - off + 1)) (drop (nat off) content), EOF)"
    by blast
  have s1: "sub64 (off + int (slen p) - 1) off = int (slen p) - 1"
  proof -
    have "wrap64 (int (slen p) - 1) = int (slen p) - 1"
    proof (rule wrap64_id)
      show "- (2 ^ 63) \<le> int (slen p) - 1" using assms(9) by simp
      show "int (slen p) - 1 < 2 ^ 63" using assms(7,8,10) by simp
    qed
    then show ?thesis by (simp add: sub64_def)
  qed
  have s2: "add64 (int (slen p) - 1) 1 = int (slen p)"
  proof -
    have "wrap64 (int (slen p)) = int (slen p)"
    proof (rule wrap64_id)
      show "- (2 ^ 63) \<le> int (slen p)" by simp
      show "int (slen p) < 2 ^ 63" using assms(7,8,10) by simp
    qed
    then show ?thesis by (simp add: add64_def)
  qed
  have k: "checkResponse ra resp off (requestLast ra p off) = None"
    unfolding checkResponse_None_iff using st m cl assms(4,5,6) ir(2) by (simp add: s1 s2)
  have n: "nat (?b - off + 1) = slen p" by simp
  have len: "length (take (slen p) (drop (nat off) content)) = slen p"
    using assms(8,10) by simp
  have rb: "readBody resp (slen p) None = (slen p, None)"
    using len by (simp add: readBody_def ReadFull_def bd n Let_def)
  have nc: "\<not> (clamped ra p off \<and> requestLast ra p off < off)" using ir(1) by simp
  have cr: "client ra (rangeRequest ra (HttpHeaderRangeFormat off (requestLast ra p off))) = Inr resp"
    using c assms(2) ir(2) by simp
  from ReadAt_body [OF assms(9) nc ir(3) refl cr k, of mem] ir(1) show ?thesis
    by (simp add: rb bd n)
qed

lemma runTasks_honoured:
  assumes "honorsRange clt rq content lm tag"
    and "client ra = clt" and "req ra = rq" and "sizev (meta ra) = int (length content)"
    and "lastModified (meta ra) = lm" and "etag (meta ra) = tag"
    and "int (length content) < 2 ^ 63"
  shows "\<forall>t \<in> set ts. Offset t = int (ptr (Content t)) \<and> slen (Content t) \<noteq> 0 \<and>
                      ptr (Content t) + slen (Content t) \<le> length content \<Longrightarrow>
         length mem = length content \<Longrightarrow>
         \<exists>mem'. runTasks ra None mem ts = Return (Inr mem') \<and> length mem' = length content \<and>
                (\<forall>i < length content. mem' ! i = (if covered ts i then content ! i else mem ! i))"
proof (induction ts arbitrary: mem)
  case Nil
  then show ?case by (simp add: covered_def)
next
  case (Cons t ts)
  let ?p = "Content t"
  let ?bs = "take (slen ?p) (drop (ptr ?p) content)"
  let ?mem1 = "store mem ?p ?bs (slen ?p)"
  from Cons.prems(1) have t: "Offset t = int (ptr ?p)" "slen ?p \<noteq> 0"
    "ptr ?p + slen ?p \<le> length content" by simp_all
  have "\<exists>r. ReadAt ra mem ?p (Offset t) =
           Return (store mem ?p (take (slen ?p) (drop (nat (Offset t)) content)) (slen ?p),
                   int (slen ?p), None, Some r)"
    using t by (intro ReadAt_honoured [OF assms]) auto
  then have rc: "readChunk ra mem t = Return (?mem1, None)"
    by (auto simp: readChunk_def Clone_def t(1))
  have lb: "length ?bs = slen ?p" using t(3) by simp
  have l1: "length ?mem1 = length content"
    using store_length [of ?p "slen ?p" mem ?bs] t(3) lb Cons.prems(2) by simp
  have n1: "?mem1 ! i = (if ptr ?p \<le> i \<and> i < ptr ?p + slen ?p then content ! i else mem ! i)"
    if "i < length content" for i
    using store_nth [of ?p "slen ?p" mem ?bs i] t(3) lb Cons.prems(2) that by auto
  from Cons.prems(1) have "\<forall>t \<in> set ts. Offset t = int (ptr (Content t)) \<and> slen (Content t) \<noteq> 0 \<and>
                      ptr (Content t) + slen (Content t) \<le> length content" by simp
  from Cons.IH [OF this l1] obtain mem' where
    r: "runTasks ra None ?mem1 ts = Return (Inr mem')" and l: "length mem' = length content"
    and n: "\<forall>i < length content. mem' ! i = (if covered ts i then content ! i else ?mem1 ! i)"
    by blast
  have "runTasks ra None mem (t # ts) = Return (Inr mem')" using rc r by simp
  moreover have "\<forall>i < length content. mem' ! i = (if covered (t # ts) i then content ! i else mem ! i)"
    using n n1 by (auto simp: covered_def)
  ultimately show ?case using l by blast
qed

lemma sequentialReads_honoured:
  assumes "honorsRange clt rq content lm tag"
    and "client ra = clt" and "req ra = rq" and "sizev (meta ra) = int (length content)"
    and "lastModified (meta ra) = lm" and "etag (meta ra) = tag"
    and "int (length content) < 2 ^ 63"
  shows "\<forall>l \<in> set ls. 0 < l \<Longrightarrow> off + sum_list ls \<le> length content \<Longrightarrow>
         sequentialReads ra (int off) ls = Some (take (sum_list ls) (drop off content))"
proof (induction ls arbitrary: off)
  case Nil
  then show ?case by simp
next
  case (Cons l ls)
  let ?p = "\<lparr> ptr = 0, slen = l, scap = l \<rparr>"
  let ?bs = "take l (drop off content)"
  from Cons.prems have l: "0 < l" "off + l \<le> length content" by simp_all
  have "\<exists>r. ReadAt ra (replicate l 0) ?p (int off) =
           Return (store (replicate l 0) ?p (take (slen ?p) (drop (nat (int off)) content)) (slen ?p),
                   int (slen ?p), None, Some r)"
    using l by (intro ReadAt_honoured [OF assms]) auto
  moreover have "store (replicate l 0) ?p ?bs l = ?bs" using l by (simp add: store_def)
  ultimately obtain r where
    rd: "ReadAt ra (replicate l 0) ?p (int off) = Return (?bs, int l, None, Some r)" by auto
  have "sequentialReads ra (int (off + l)) ls = Some (take (sum_list ls) (drop (off + l) content))"
    using Cons.prems by (intro Cons.IH) auto
  then have "sequentialReads ra (int off + int l) ls = Some (take (sum_list ls) (drop (off + l) content))"
    by simp
  moreover have "?bs @ take (sum_list ls) (drop (off + l) content) = take (l + sum_list ls) (drop off content)"
    by (simp add: take_add add.commute)
  ultimately show ?case using rd by simp
qed



lemma Do_honoured:
  assumes "honorsRange clt (newRequest ''GET'' url) content lm tag" and "content \<noteq> []"
    and "\<forall>ts. mset (sched ts) = mset ts"
    and "\<forall>l \<in> set ls. 0 < l" and "sum_list ls = length content"
  shows "\<exists>ra buf. New (Some clt) (Some (newRequest ''GET'' url)) = Inr ra \<and> Size ra = int (length content) \<and>
           Do None (Some clt) url None sched = Return (Inr buf) \<and>
           length buf = length content \<and>
           sequentialReads ra 0 ls = Some buf \<and> buf = content"
proof -
  let ?T = "int (length content)"
  have get: "Method (newRequest ''GET'' url) = ''GET''" by (simp add: newRequest_def)
  from New_honoured [OF assms(1,2) get] obtain ct where
    new: "New (Some clt) (Some (newRequest ''GET'' url)) =
           Inr \<lparr> client = clt, req = newRequest ''GET'' url,
                 meta = \<lparr> start = 0, endv = 0, sizev = ?T, lastModified = lm,
                          etag = tag, contentType = ct \<rparr> \<rparr>" (is "_ = Inr ?ra") ..
  have T63: "?T < 2 ^ 63" using assms(1,2) by (rule honoured_size_int64)
  have sz: "Size ?ra = ?T" by (simp add: Size_def)
  let ?buf = "\<lparr> ptr = 0, slen = length content, scap = length content \<rparr>"
  let ?tasks = "map (\<lambda>os. \<lparr> Offset = fst os, Content = window ?buf (fst os) (snd os) \<rparr>) (chunkPlan ?T)"
  have mk: "makeMemoryTask ?T ?buf = Return ?tasks"
    using T63 by (intro makeMemoryTask_plan) auto
  have st: "set (sched ?tasks) = set ?tasks" using assms(3) by (intro mset_eq_setD) simp
  have good: "\<forall>t \<in> set (sched ?tasks). Offset t = int (ptr (Content t)) \<and> slen (Content t) \<noteq> 0 \<and>
                      ptr (Content t) + slen (Content t) \<le> length content"
  proof
    fix t assume "t \<in> set (sched ?tasks)"
    then have t: "t \<in> set ?tasks" using st by simp
    from planned_task_bounds [OF _ t] show "Offset t = int (ptr (Content t)) \<and> slen (Content t) \<noteq> 0 \<and>
                      ptr (Content t) + slen (Content t) \<le> length content" by auto
  qed
  from runTasks_honoured [where ra = ?ra and mem = "replicate (length content) 0", OF assms(1) _ _ _ _ _ T63 good]
  obtain mem' where
    run: "runTasks ?ra None (replicate (length content) 0) (sched ?tasks) = Return (Inr mem')"
    and len: "length mem' = length content"
    and nth: "\<forall>i < length content. mem' ! i =
                (if covered (sched ?tasks) i then content ! i
                 else replicate (length content) 0 ! i)"
    by auto
  have cov: "covered (sched ?tasks) i" if "i < length content" for i
  proof -
    from that have "int i \<in> {0..<?T}" by simp
    also have "{0..<?T} = (\<Union>os \<in> set (chunkPlan ?T). byteRange os)"
      by (rule chunkPlan_cover [symmetric]) simp
    finally obtain os where os: "os \<in> set (chunkPlan ?T)" and i: "int i \<in> byteRange os" by blast
    let ?t = "\<lparr> Offset = fst os, Content = window ?buf (fst os) (snd os) \<rparr>"
    have "?t \<in> set (sched ?tasks)" using os st by auto
    moreover have "ptr (Content ?t) \<le> i \<and> i < ptr (Content ?t) + slen (Content ?t)"
      using i by (auto simp: byteRange_def window_def)
    ultimately show ?thesis unfolding covered_def by blast
  qed
  have eq: "mem' = content"
    using len nth cov by (intro nth_equalityI) auto
  have "Do None (Some clt) url None sched = Return (Inr mem')"
    using run by (simp add: Do_def NewRequest_url new sz Let_def mk)
  moreover have "sequentialReads ?ra 0 ls = Some content"
    using sequentialReads_honoured [where ra = ?ra and off = 0 and ls = ls, OF assms(1) _ _ _ _ _ T63]
      assms(4,5) by simp
  ultimately show ?thesis using new sz eq by auto
qed


section \<open>The reference server honours Range requests\<close>

lemma digit_table:
  assumes "k < 10"
  shows "isDigit (''0123456789'' ! k)" and "int (of_char (''0123456789'' ! k)) - 48 = int k"
proof -
  from assms have k: "k \<in> {0, 1, 2, 3, 4, 5, 6, 7, 8, 9}" by auto
  then show "isDigit (''0123456789'' ! k)" by (auto simp: isDigit_def)
  from k show "int (of_char (''0123456789'' ! k)) - 48 = int k" by auto
qed

lemma digitsValue_snoc:
  "digitsValue (ds @ [c]) = digitsValue ds * 10 + (int (of_char c) - 48)"
  by (simp add: digitsValue_def)

lemma natDigits_props:
  "natDigits k \<noteq> [] \<and> list_all isDigit (natDigits k) \<and> digitsValue (natDigits k) = int k"
proof (induction k rule: natDigits.induct)
  case (1 k)
  show ?case
  proof (cases "k < 10")
    case True
    then have "natDigits k = [''0123456789'' ! k]" by (subst natDigits.simps) simp
    with digit_table [OF True] show ?thesis by (simp add: digitsValue_def)
  next
    case False
    then have e: "natDigits k = natDigits (k div 10) @ [''0123456789'' ! (k mod 10)]"
      by (subst natDigits.simps) simp
    have m: "k mod 10 < 10" by simp
    from "1.IH" [OF False] digit_table [OF m] show ?thesis
      unfolding e digitsValue_snoc by (simp add: zmod_int zdiv_int)
  qed
qed

lemma isDigit_not_sep:
  "isDigit c \<Longrightarrow> c \<noteq> CHR ''-'' \<and> c \<noteq> CHR ''+'' \<and> c \<noteq> CHR ''/'' \<and> c \<noteq> CHR '' '' \<and>
                 c \<noteq> CHR ''='' \<and> c \<noteq> CHR ''*''"
  by (auto simp: isDigit_def)

lemma natDigits_no_sep:
  "CHR ''-'' \<notin> set (natDigits k)" "CHR ''/'' \<notin> set (natDigits k)"
  "CHR '' '' \<notin> set (natDigits k)" "CHR ''='' \<notin> set (natDigits k)"
  using natDigits_props [of k] isDigit_not_sep by (auto simp: list_all_iff)

lemma ParseInt_natDigits:
  assumes "int k < 2 ^ 63"
  shows "ParseInt (natDigits k) = Some (int k)"
proof -
  from natDigits_props [of k] obtain c cs where s: "natDigits k = c # cs"
    and d: "list_all isDigit (c # cs)" and v: "digitsValue (c # cs) = int k"
    by (cases "natDigits k") auto
  from d isDigit_not_sep [of c] have "c \<noteq> CHR ''-''" "c \<noteq> CHR ''+''" by auto
  with d v assms show ?thesis unfolding s by (simp add: ParseInt_def Let_def)
qed

lemma Split_none: "sep \<notin> set s \<Longrightarrow> Split s sep = [s]"
  by (induction s) auto

lemma Split_at: "sep \<notin> set a \<Longrightarrow> Split (a @ sep # b) sep = a # Split b sep"
  by (induction a) auto

lemma natDigits_not_star: "natDigits k \<noteq> ''*''"
  using natDigits_props [of k] isDigit_not_sep [of "CHR ''*''"] by (auto simp: list_all_iff)

lemma Split_formatted:
  "Split (natDigits a @ CHR ''-'' # natDigits b @ CHR ''/'' # natDigits T) (CHR '' '') =
     [natDigits a @ CHR ''-'' # natDigits b @ CHR ''/'' # natDigits T]"
  "Split (natDigits a @ CHR ''-'' # natDigits b @ CHR ''/'' # natDigits T) (CHR ''/'') =
     [natDigits a @ CHR ''-'' # natDigits b, natDigits T]"
  "Split (natDigits a @ CHR ''-'' # natDigits b) (CHR ''-'') = [natDigits a, natDigits b]"
  "Split (natDigits a @ CHR ''-'' # natDigits b) (CHR ''='') = [natDigits a @ CHR ''-'' # natDigits b]"
proof -
  show "Split (natDigits a @ CHR ''-'' # natDigits b @ CHR ''/'' # natDigits T) (CHR '' '') =
     [natDigits a @ CHR ''-'' # natDigits b @ CHR ''/'' # natDigits T]"
    by (rule Split_none) (simp add: natDigits_no_sep)
  show "Split (natDigits a @ CHR ''-'' # natDigits b @ CHR ''/'' # natDigits T) (CHR ''/'') =
     [natDigits a @ CHR ''-'' # natDigits b, natDigits T]"
    using Split_at [of "CHR ''/''" "natDigits a @ CHR ''-'' # natDigits b" "natDigits T"]
      Split_none [of "CHR ''/''" "natDigits T"]
    by (simp add: natDigits_no_sep)
  show "Split (natDigits a @ CHR ''-'' # natDigits b) (CHR ''-'') = [natDigits a, natDigits b]"
    using Split_at [of "CHR ''-''" "natDigits a" "natDigits b"]
      Split_none [of "CHR ''-''" "natDigits b"]
    by (simp add: natDigits_no_sep)
  show "Split (natDigits a @ CHR ''-'' # natDigits b) (CHR ''='') =
     [natDigits a @ CHR ''-'' # natDigits b]"
    by (rule Split_none) (simp add: natDigits_no_sep)
qed

lemma formatted_range_not_star: "natDigits a @ CHR ''-'' # natDigits b \<noteq> ''*''"
  using natDigits_props [of a] by (cases "natDigits a") auto

lemma parseContentRange_formatted:
  assumes "int a < 2 ^ 63" and "int b < 2 ^ 63" and "int T < 2 ^ 63"
  shows "parseContentRange (''bytes '' @ natDigits a @ ''-'' @ natDigits b @ ''/'' @ natDigits T) =
           Inr (int a, int b, int T)"
  using assms
  by (simp add: parseContentRange_def Split_formatted formatted_range_not_star
      natDigits_not_star ParseInt_natDigits)

lemma serve_honours:
  assumes "int (length content) < 2 ^ 63"
  shows "honorsRange (serve content lm tag) rq content lm tag"
  unfolding honorsRange_def
proof (intro allI impI)
  fix a b :: int
  let ?T = "int (length content)"
  let ?ra = "\<lparr> client = serve content lm tag, req = rq, meta = zeroMeta \<rparr>"
  let ?r = "rangeRequest ?ra (HttpHeaderRangeFormat a b)"
  assume ab: "0 \<le> a \<and> a \<le> b \<and> b < ?T"
  then have a63: "int (nat a) < 2 ^ 63" and b63: "int (nat b) < 2 ^ 63" using assms by auto
  have fa: "fmtInt a = natDigits (nat a)" and fb: "fmtInt b = natDigits (nat b)"
    and fT: "fmtInt ?T = natDigits (length content)"
    using ab by (simp_all add: fmtInt_def)
  have h: "Header_Get (ReqHeader ?r) ''Range'' = ''bytes='' @ natDigits (nat a) @ ''-'' @ natDigits (nat b)"
    by (simp add: rangeRequest_def Header_Set_def Header_Get_def HttpHeaderRangeFormat_def fa fb)
  have mn: "min b (?T - 1) = b" using ab by simp
  let ?resp = "\<lparr> Status = ''206 Partial Content'', StatusCode = 206,
                  Header = [(''Content-Range'',
                               ''bytes '' @ natDigits (nat a) @ ''-'' @ natDigits (nat b) @ ''/'' @
                               natDigits (length content)),
                            (''Last-Modified'', lm), (''ETag'', tag)],
                  ContentLength = b - a + 1,
                  Body = (take (nat (b - a + 1)) (drop (nat a) content), EOF) \<rparr>"
  have s: "serve content lm tag ?r = Inr ?resp"
    unfolding serve_def h
    using ab a63 b63 by (simp add: Split_formatted ParseInt_natDigits Let_def mn fa fb fT)
  have p: "parseContentRange (''bytes '' @ natDigits (nat a) @ ''-'' @ natDigits (nat b) @ ''/'' @
                               natDigits (length content)) = Inr (a, b, ?T)"
    using parseContentRange_formatted [OF a63 b63, of "length content"] assms ab by simp
  have m: "getMeta ?resp =
             Inr \<lparr> start = a, endv = b, sizev = ?T, lastModified = lm, etag = tag,
                   contentType = Header_Get (Header ?resp) ''Content-Type'' \<rparr>"
    unfolding getMeta_def using p by (simp add: Header_Get_def Let_def)
  show "case serve content lm tag ?r of
           Inl e \<Rightarrow> False
         | Inr resp \<Rightarrow>
             StatusCode resp = 206 \<and>
             getMeta resp =
               Inr \<lparr> start = a, endv = b, sizev = ?T, lastModified = lm,
                     etag = tag, contentType = Header_Get (Header resp) ''Content-Type'' \<rparr> \<and>
             ContentLength resp = b - a + 1 \<and>
             Body resp = (take (nat (b - a + 1)) (drop (nat a) content), EOF)"
    unfolding s using m by simp
qed


text \<open>
  The reference server honours Range requests, so a download from it returns the
  resource, of one chunk or many, in every completion order.
\<close>

lemma Do_reference_server:
  assumes "content \<noteq> []" and "int (length content) < 2 ^ 63"
    and "\<forall>ts. mset (sched ts) = mset ts"
  shows "Do None (Some (serve content lm tag)) url None sched = Return (Inr content)"
proof -
  have "\<forall>l \<in> set [length content]. 0 < l" using assms(1) by simp
  moreover have "sum_list [length content] = length content" by simp
  ultimately show ?thesis
    using Do_honoured [OF serve_honours [OF assms(2)] assms(1,3), of "[length content]" lm tag url]
    by auto
qed

text \<open>
  When the caller's context is cancelled before the first chunk read, every worker
  returns nil at once, and the download returns its buffer as allocated, all zero, with
  no error.
\<close>

lemma Do_cancelled_context:
  assumes "honorsRange clt (newRequest ''GET'' url) content lm tag" and "content \<noteq> []"
  shows "Do None (Some clt) url (Some 0) sched = Return (Inr (replicate (length content) 0))"
proof -
  have get: "Method (newRequest ''GET'' url) = ''GET''" by (simp add: newRequest_def)
  from New_honoured [OF assms get] obtain ct where
    new: "New (Some clt) (Some (newRequest ''GET'' url)) =
           Inr \<lparr> client = clt, req = newRequest ''GET'' url,
                 meta = \<lparr> start = 0, endv = 0, sizev = int (length content), lastModified = lm,
                          etag = tag, contentType = ct \<rparr> \<rparr>" ..
  have T63: "int (length content) < 2 ^ 63" using assms by (rule honoured_size_int64)
  have mk: "makeMemoryTask (int (length content))
              \<lparr> ptr = 0, slen = length content, scap = length content \<rparr> =
            Return (map (\<lambda>os. \<lparr> Offset = fst os,
                                  Content = window \<lparr> ptr = 0, slen = length content,
                                                     scap = length content \<rparr> (fst os) (snd os) \<rparr>)
                      (chunkPlan (int (length content))))"
    using T63 by (intro makeMemoryTask_plan) auto
  have "runTasks ra (Some 0) mem ts = Return (Inr mem)" for ra mem ts
    by (simp add: runTasks_started [of ra "Some 0"] started_def)
  then show ?thesis
    by (simp add: Do_def NewRequest_url new Size_def Let_def mk)
qed

text \<open>
  C1, as the code has it. For every non-empty resource served by a transport that honours
  Range requests with stable metadata, and for every order in which the chunk reads
  complete, the buffer-mode download, when the caller's context is not cancelled on
  the way, returns a buffer of the resource's length, and that
  buffer is the concatenation of sequential single-shot ranged reads covering the
  resource, whatever lengths the reads have; both are the bytes of the resource.
\<close>

theorem Do_equals_sequential_reads:
  assumes "honorsRange clt (newRequest ''GET'' url) content lm tag" and "content \<noteq> []"
    and "\<forall>ts. mset (sched ts) = mset ts"
    and "\<forall>l \<in> set ls. 0 < l" and "sum_list ls = length content"
  shows "\<exists>ra buf. New (Some clt) (Some (newRequest ''GET'' url)) = Inr ra \<and> Size ra = int (length content) \<and>
           Do None (Some clt) url None sched = Return (Inr buf) \<and>
           length buf = length content \<and>
           sequentialReads ra 0 ls = Some buf \<and> buf = content"
  using assms by (rule Do_honoured)

lemmas serve_eval =
  serve_def rangeRequest_def cloneRequest_def cloneHeader_def Header_Set_def Header_Get_def
  getReq_def HttpHeaderRangeFormat_def fmtInt_def natDigits.simps ParseInt_def isDigit_def
  digitsValue_def Let_def getMeta_def parseContentRange_def

lemma honours_tiny: "honorsRange (serve [1, 2, 3] ''Mon'' ''v1'') getReq [1, 2, 3] ''Mon'' ''v1''"
  by (rule serve_honours) simp

lemma New_tiny:
  "New (Some (serve [1, 2, 3] ''Mon'' ''v1'')) (Some getReq) =
     Inr \<lparr> client = serve [1, 2, 3] ''Mon'' ''v1'', req = getReq,
           meta = \<lparr> start = 0, endv = 0, sizev = 3, lastModified = ''Mon'', etag = ''v1'',
                    contentType = [] \<rparr> \<rparr>"
  by (simp add: New_def init_def serve_eval)

theorem Do_equals_sequential_reads_witness:
  "honorsRange (serve [1, 2, 3] ''Mon'' ''v1'') getReq [1, 2, 3] ''Mon'' ''v1'' \<and>
   Do None (Some (serve [1, 2, 3] ''Mon'' ''v1'')) ''http://example/file'' None rev =
     Return (Inr [1, 2, 3]) \<and>
   sequentialReads
     \<lparr> client = serve [1, 2, 3] ''Mon'' ''v1'', req = getReq,
       meta = \<lparr> start = 0, endv = 0, sizev = 3, lastModified = ''Mon'', etag = ''v1'',
                contentType = [] \<rparr> \<rparr> 0 [1, 2] = Some [1, 2, 3] \<and>
   honorsRange (serve (replicate 65538 7) ''Mon'' ''v1'') getReq (replicate 65538 7)
     ''Mon'' ''v1'' \<and>
   Do None (Some (serve (replicate 65538 7) ''Mon'' ''v1'')) ''http://example/file'' None rev =
     Return (Inr (replicate 65538 7))"
proof -
  have ne: "[1, 2, 3 :: byte] \<noteq> []" by simp
  have sc: "\<forall>ts :: memoryTaskType list. mset (rev ts) = mset ts" by simp
  have pos: "\<forall>l \<in> set [1, 2 :: nat]. 0 < l" by simp
  have sm: "sum_list [1, 2 :: nat] = length [1, 2, 3 :: byte]" by simp
  have nr: "newRequest ''GET'' ''http://example/file'' = getReq"
    by (simp add: newRequest_def getReq_def)
  have big: "honorsRange (serve (replicate 65538 7) ''Mon'' ''v1'') getReq (replicate 65538 7)
     ''Mon'' ''v1''"
    by (rule serve_honours) simp
  have ne': "replicate 65538 (7 :: byte) \<noteq> []" by simp
  have pos': "\<forall>l \<in> set [65538 :: nat]. 0 < l" by simp
  have sm': "sum_list [65538 :: nat] = length (replicate 65538 (7 :: byte))" by simp
  from Do_equals_sequential_reads [of _ "''http://example/file''", unfolded nr,
      OF honours_tiny ne sc pos sm]
    Do_equals_sequential_reads [of _ "''http://example/file''", unfolded nr,
      OF big ne' sc pos' sm']
    honours_tiny big
  show ?thesis by (auto simp: New_tiny)
qed

text \<open>
  The claim as the specification words it fails for the empty resource: no range of it is
  satisfiable, the probe for its first byte is answered with 416, and the download
  returns the probe's error, not a buffer of length 0.
\<close>

lemma serve_empty:
  "serve [] lm tag (rangeRequest \<lparr> client = c, req = getReq, meta = m \<rparr> ''bytes=0-0'') =
     Inr \<lparr> Status = ''416 Range Not Satisfiable'', StatusCode = 416,
           Header = [(''Content-Range'', ''bytes */0'')], ContentLength = 0, Body = ([], EOF) \<rparr>"
  by (simp add: serve_def rangeRequest_def cloneRequest_def cloneHeader_def Header_Set_def
      Header_Get_def getReq_def ParseInt_def isDigit_def digitsValue_def fmtInt_def
      natDigits.simps Let_def)

theorem empty_resource_download_fails:
  "honorsRange (serve [] ''Mon'' ''v1'') getReq [] ''Mon'' ''v1'' \<and>
   Do None (Some (serve [] ''Mon'' ''v1'')) ''http://example/file'' None id =
     Return (Inl (UnexpectStatusInit ''416 Range Not Satisfiable''))"
proof -
  have "honorsRange (serve [] ''Mon'' ''v1'') getReq [] ''Mon'' ''v1''"
    by (auto simp: honorsRange_def)
  moreover have "Do None (Some (serve [] ''Mon'' ''v1'')) ''http://example/file'' None id =
     Return (Inl (UnexpectStatusInit ''416 Range Not Satisfiable''))"
    by (simp add: Do_def NewRequest_example New_def init_def serve_empty) (simp add: getReq_def)
  ultimately show ?thesis ..
qed



section \<open>End-of-resource reads whose range does not overflow\<close>

text \<open>
  Where the last byte asked for, \<open>off + len(p) - 1\<close>, is an \<open>int64\<close>, a read at or past
  the cached size returns 0 bytes and end-of-resource without a request, and a read
  that straddles the end asks for the bytes up to \<open>size - 1\<close> and returns them with
  end-of-resource when the transport delivers them.
\<close>

lemma wrap64_diff_left: "wrap64 (wrap64 x - y) = wrap64 (x - y)"
  unfolding wrap64_def by (simp add: mod_diff_left_eq algebra_simps)

lemma requestLast0_in_range:
  assumes "- (2 ^ 63) \<le> off + int (slen p) - 1" and "off + int (slen p) - 1 < 2 ^ 63"
  shows "requestLast0 p off = off + int (slen p) - 1"
proof -
  have "wrap64 (off + int (slen p) - 1) = off + int (slen p) - 1"
    using assms by (rule wrap64_id)
  then show ?thesis by (simp add: requestLast0_def add64_def sub64_def wrap64_diff_left)
qed

lemma ReadAt_past_end_in_range:
  assumes "slen p \<noteq> 0" and "sizev (meta ra) \<noteq> - 1"
    and "- (2 ^ 63) < sizev (meta ra)" and "sizev (meta ra) \<le> off"
    and "off + int (slen p) - 1 < 2 ^ 63"
  shows "ReadAt ra mem p off = Return (mem, 0, Some EOF, None)"
proof -
  have r: "requestLast0 p off = off + int (slen p) - 1"
    using assms by (intro requestLast0_in_range) auto
  have s: "sub64 (sizev (meta ra)) 1 = sizev (meta ra) - 1"
    unfolding sub64_def using assms by (intro wrap64_id) auto
  have c: "clamped ra p off" using assms by (simp add: clamped_def r s)
  then have "requestLast ra p off < off" using assms(4) by (simp add: requestLast_def s)
  with c show ?thesis using assms(1) by (simp add: ReadAt_past_end)
qed

lemma ReadAt_past_end_example:
  "ReadAt \<lparr> client = refusing, req = getReq, meta = metaTen \<rparr> [5, 6, 7, 8]
     \<lparr> ptr = 0, slen = 4, scap = 4 \<rparr> 10 = Return ([5, 6, 7, 8], 0, Some EOF, None)"
  by (rule ReadAt_past_end_in_range) (simp_all add: metaTen_def)

lemma ReadAt_straddling_end:
  assumes "slen p \<noteq> 0" and "slen p \<le> scap p" and "sizev (meta ra) \<noteq> - 1"
    and "0 \<le> off" and "off < sizev (meta ra)" and "sizev (meta ra) < off + int (slen p)"
    and "off + int (slen p) - 1 < 2 ^ 63"
    and "client ra (rangeRequest ra (HttpHeaderRangeFormat off (sizev (meta ra) - 1))) = Inr resp"
    and "checkResponse ra resp off (sizev (meta ra) - 1) = None"
    and "nat (sizev (meta ra) - off) \<le> length (fst (Body resp))"
  shows "ReadAt ra mem p off =
           Return (store mem (p\<lparr> slen := nat (sizev (meta ra) - off) \<rparr>) (fst (Body resp))
                     (nat (sizev (meta ra) - off)),
                   sizev (meta ra) - off, Some EOF,
                   Some (rangeRequest ra (HttpHeaderRangeFormat off (sizev (meta ra) - 1))))"
proof -
  let ?T = "sizev (meta ra)"
  have r: "requestLast0 p off = off + int (slen p) - 1"
    using assms by (intro requestLast0_in_range) auto
  have s: "sub64 ?T 1 = ?T - 1"
    unfolding sub64_def using assms by (intro wrap64_id) auto
  have c: "clamped ra p off" using assms by (simp add: clamped_def r s)
  then have l: "requestLast ra p off = ?T - 1" by (simp add: requestLast_def s)
  have nc: "\<not> (clamped ra p off \<and> requestLast ra p off < off)" using assms(5) by (simp add: l)
  have d: "sub64 (?T - 1) off = ?T - 1 - off"
    unfolding sub64_def using assms by (intro wrap64_id) auto
  have e: "add64 (?T - 1 - off) 1 = ?T - off"
  proof -
    have "wrap64 (?T - off) = ?T - off" using assms by (intro wrap64_id) auto
    then show ?thesis by (simp add: add64_def)
  qed
  have b: "readBuffer ra p off = Some (p\<lparr> slen := nat (?T - off) \<rparr>)"
    using c assms(2,5,6) by (simp add: readBuffer_def l d e subslice_def)
  have rb: "readBody resp (nat (?T - off)) (Some EOF) = (nat (?T - off), Some EOF)"
    using assms(10) by (simp add: readBody_def ReadFull_def Let_def)
  from ReadAt_body [OF assms(1) nc b refl assms(8) [folded l] assms(9) [folded l], of mem] c assms(5)
  show ?thesis by (simp add: rb l)
qed

lemma serve_tail:
  "serve [1, 2, 3] ''Mon'' ''v1'' (getReq\<lparr> ReqHeader := [(''Range'', ''bytes=1-2'')] \<rparr>) =
     Inr \<lparr> Status = ''206 Partial Content'', StatusCode = 206,
           Header = [(''Content-Range'', ''bytes 1-2/3''), (''Last-Modified'', ''Mon''),
                     (''ETag'', ''v1'')],
           ContentLength = 2, Body = ([2, 3], EOF) \<rparr>"
  by (simp add: serve_eval)

lemma getMeta_tail:
  "getMeta \<lparr> Status = ''206 Partial Content'', StatusCode = 206,
           Header = [(''Content-Range'', ''bytes 1-2/3''), (''Last-Modified'', ''Mon''),
                     (''ETag'', ''v1'')],
           ContentLength = 2, Body = ([2, 3], EOF) \<rparr> =
   Inr \<lparr> start = 1, endv = 2, sizev = 3, lastModified = ''Mon'', etag = ''v1'', contentType = [] \<rparr>"
  by (simp add: serve_eval)

lemma ReadAt_straddling_end_example:
  "ReadAt \<lparr> client = serve [1, 2, 3] ''Mon'' ''v1'', req = getReq,
            meta = \<lparr> start = 0, endv = 0, sizev = 3, lastModified = ''Mon'', etag = ''v1'',
                     contentType = [] \<rparr> \<rparr>
     [0, 0, 0, 0] \<lparr> ptr = 0, slen = 4, scap = 4 \<rparr> 1 =
   Return ([2, 3, 0, 0], 2, Some EOF, Some (getReq\<lparr> ReqHeader := [(''Range'', ''bytes=1-2'')] \<rparr>))"
proof -
  let ?ra = "\<lparr> client = serve [1, 2, 3] ''Mon'' ''v1'', req = getReq,
            meta = \<lparr> start = 0, endv = 0, sizev = 3, lastModified = ''Mon'', etag = ''v1'',
                     contentType = [] \<rparr> \<rparr>"
  let ?resp = "\<lparr> Status = ''206 Partial Content'', StatusCode = 206,
           Header = [(''Content-Range'', ''bytes 1-2/3''), (''Last-Modified'', ''Mon''),
                     (''ETag'', ''v1'')],
           ContentLength = 2, Body = ([2, 3], EOF) \<rparr>"
  have rq: "rangeRequest ?ra (HttpHeaderRangeFormat 1 (sizev (meta ?ra) - 1)) =
            getReq\<lparr> ReqHeader := [(''Range'', ''bytes=1-2'')] \<rparr>"
    by (simp add: rangeRequest_def cloneRequest_def cloneHeader_def Header_Set_def getReq_def
        HttpHeaderRangeFormat_def fmtInt_def natDigits.simps)
  have c: "client ?ra (rangeRequest ?ra (HttpHeaderRangeFormat 1 (sizev (meta ?ra) - 1))) = Inr ?resp"
    unfolding rq by (simp add: serve_tail)
  have k: "checkResponse ?ra ?resp 1 (sizev (meta ?ra) - 1) = None"
    by (simp add: checkResponse_def getMeta_tail add64_def sub64_def wrap64_def)
  have rq2: "rangeRequest ?ra (HttpHeaderRangeFormat 1 2) =
             getReq\<lparr> ReqHeader := [(''Range'', ''bytes=1-2'')] \<rparr>"
    using rq by simp
  from ReadAt_straddling_end [of "\<lparr> ptr = 0, slen = 4, scap = 4 \<rparr>" ?ra 1 ?resp "[0, 0, 0, 0]", OF _ _ _ _ _ _ _ c k]
  show ?thesis by (simp add: rq2 store_def)
qed

section \<open>The size a probe with a Content-Range caches\<close>

text \<open>
  When the probe's answer carries a Content-Range, the cached size is the length that
  header parses to: \<open>- 1\<close> for the length \<open>*\<close>.
\<close>

lemma Size_is_parsed_length:
  assumes "New (Some clt) (Some rq) = Inr ra"
    and "clt (rangeRequest \<lparr> client = clt, req = rq, meta = zeroMeta \<rparr> ''bytes=0-0'') = Inr resp"
    and "Header_Get (Header resp) ''Content-Range'' \<noteq> []"
    and "parseContentRange (Header_Get (Header resp) ''Content-Range'') = Inr (f, l, n)"
  shows "Size ra = n"
  using assms by (auto simp: New_def init_def getMeta_def Size_def Let_def split: if_splits sum.splits)

lemma Size_unknown_example:
  "(case New (Some starProbe) (Some getReq) of Inr ra \<Rightarrow> Size ra = - 1 | Inl e \<Rightarrow> False)"
proof -
  let ?resp = "\<lparr> Status = ''206 Partial Content'', StatusCode = 206,
                 Header = [(''Content-Range'', ''bytes 0-0/*'')],
                 ContentLength = 1, Body = ([7], EOF) \<rparr>"
  have m: "getMeta ?resp = Inr \<lparr> start = 0, endv = 0, sizev = - 1, lastModified = [],
                                  etag = [], contentType = [] \<rparr>"
    by code_simp
  have n: "New (Some starProbe) (Some getReq) =
             Inr \<lparr> client = starProbe, req = getReq,
                   meta = \<lparr> start = 0, endv = 0, sizev = - 1, lastModified = [],
                            etag = [], contentType = [] \<rparr> \<rparr>"
    by (simp add: New_def init_def starProbe_def m) (simp add: getReq_def)
  have p: "parseContentRange (Header_Get (Header ?resp) ''Content-Range'') = Inr (0, 0, - 1)"
    by (simp add: Header_Get_def parseContentRange_def ParseInt_def isDigit_def digitsValue_def)
  have c: "starProbe (rangeRequest \<lparr> client = starProbe, req = getReq, meta = zeroMeta \<rparr> ''bytes=0-0'') = Inr ?resp"
    by (simp add: starProbe_def)
  have h: "Header_Get (Header ?resp) ''Content-Range'' \<noteq> []" by (simp add: Header_Get_def)
  from Size_is_parsed_length [OF n c h p] show ?thesis by (simp add: n)
qed


end
